theory Spec2Isabelle
  imports Complex_Main "HOL-Library.Multiset" "HOL-Library.Log_Nat"
begin

text \<open>
  A model of the print kiosk's conversion and cost pipeline: the server (server.js) and
  the page selection parser of the browser form (public/app.js).

  server.js holds two revisions of the server. The earlier one rasterizes with pdf2pic
  and looks cached pages up under the name \<^verbatim>\<open>base-N.png\<close>; the later one calls
  Ghostscript, names cached pages \<^verbatim>\<open>base_N.png\<close> and carries the changes its comments
  mark as fixes. The definitions below follow the later revision. Where the earlier one
  differs, its variant stands beside, with \<open>pdf2pic\<close> in its name.
\<close>

section \<open>JavaScript numbers and strings\<close>

text \<open>
  A JavaScript number is an IEEE binary64 value: \<open>NaN\<close>, an infinity, or a finite
  value, which is a rational. The sign of zero is not modelled. Every arithmetic result
  and every numeric literal is rounded to the nearest binary64 value, ties to the even
  mantissa, by \<open>fl\<close> below.
\<close>

datatype jsnum = NaN | NegInf | Fin rat | PosInf

text \<open>
  The binary logarithm, rounded down, of the positive fraction \<open>n / d\<close>: the bit
  lengths give it up to one, and a comparison decides.
\<close>

definition ilog2 :: "int \<Rightarrow> int \<Rightarrow> int" where
  "ilog2 n d =
     (let k0 = bitlen n - bitlen d
      in if (if 0 \<le> k0 then d * 2 ^ nat k0 \<le> n else d \<le> n * 2 ^ nat (- k0))
         then k0 else k0 - 1)"

text \<open>The fraction \<open>num / den\<close> rounded to the nearest integer, ties to even.\<close>

definition round_half_even :: "int \<Rightarrow> int \<Rightarrow> int" where
  "round_half_even num den =
     (let f = num div den; r2 = 2 * (num mod den)
      in if r2 < den then f
         else if den < r2 then f + 1
         else if even f then f else f + 1)"

text \<open>
  Rounding to binary64. With \<open>e\<close> the exponent of the last mantissa bit (at least
  \<open>-1074\<close>, where the subnormal numbers lie), the magnitude becomes \<open>m * 2 ^ e\<close> for
  the nearest integer \<open>m\<close>, which has at most 53 bits or is \<open>2 ^ 53\<close>. The result
  overflows to an infinity when \<open>m * 2 ^ e\<close> reaches \<open>2 ^ 1024\<close>, that is, when the
  bit length of \<open>m\<close> plus \<open>e\<close> exceeds 1024.
\<close>

definition fl :: "rat \<Rightarrow> jsnum" where
  "fl q =
     (if q = 0 then Fin 0
      else
        (let n = fst (quotient_of \<bar>q\<bar>);
             d = snd (quotient_of \<bar>q\<bar>);
             e = max (ilog2 n d - 52) (- 1074);
             m = (if 0 \<le> e then round_half_even n (d * 2 ^ nat e)
                  else round_half_even (n * 2 ^ nat (- e)) d);
             mag = (if 0 \<le> e then of_int (m * 2 ^ nat e)
                    else of_int m / of_int (2 ^ nat (- e)))
         in if 1024 < e + bitlen m then (if 0 < q then PosInf else NegInf)
            else Fin (if 0 < q then mag else - mag)))"

definition isNaN :: "jsnum \<Rightarrow> bool" where
  "isNaN v = (v = NaN)"

text \<open>
  The operators \<^verbatim>\<open>+\<close>, \<^verbatim>\<open>*\<close> and \<^verbatim>\<open>/\<close> on numbers, each rounding its exact
  result.
\<close>

fun js_add :: "jsnum \<Rightarrow> jsnum \<Rightarrow> jsnum" where
  "js_add NaN _ = NaN"
| "js_add _ NaN = NaN"
| "js_add (Fin a) (Fin b) = fl (a + b)"
| "js_add PosInf NegInf = NaN"
| "js_add NegInf PosInf = NaN"
| "js_add PosInf _ = PosInf"
| "js_add NegInf _ = NegInf"
| "js_add _ PosInf = PosInf"
| "js_add _ NegInf = NegInf"

text \<open>
  The operator \<^verbatim>\<open>-\<close> is only used by the sort comparator, which looks at the sign
  of the difference alone. The difference of two binary64 numbers never rounds to zero,
  so the sign is that of the exact difference, which is what is kept here.
\<close>

fun js_sub :: "jsnum \<Rightarrow> jsnum \<Rightarrow> jsnum" where
  "js_sub NaN _ = NaN"
| "js_sub _ NaN = NaN"
| "js_sub (Fin a) (Fin b) = Fin (a - b)"
| "js_sub PosInf PosInf = NaN"
| "js_sub NegInf NegInf = NaN"
| "js_sub PosInf _ = PosInf"
| "js_sub NegInf _ = NegInf"
| "js_sub _ PosInf = NegInf"
| "js_sub _ NegInf = PosInf"

definition signed_inf :: "bool \<Rightarrow> jsnum" where
  "signed_inf positive = (if positive then PosInf else NegInf)"

fun js_mul :: "jsnum \<Rightarrow> jsnum \<Rightarrow> jsnum" where
  "js_mul NaN _ = NaN"
| "js_mul _ NaN = NaN"
| "js_mul (Fin a) (Fin b) = fl (a * b)"
| "js_mul (Fin a) PosInf = (if a = 0 then NaN else signed_inf (0 < a))"
| "js_mul (Fin a) NegInf = (if a = 0 then NaN else signed_inf (a < 0))"
| "js_mul PosInf (Fin b) = (if b = 0 then NaN else signed_inf (0 < b))"
| "js_mul NegInf (Fin b) = (if b = 0 then NaN else signed_inf (b < 0))"
| "js_mul PosInf PosInf = PosInf"
| "js_mul NegInf NegInf = PosInf"
| "js_mul PosInf NegInf = NegInf"
| "js_mul NegInf PosInf = NegInf"

fun js_div :: "jsnum \<Rightarrow> jsnum \<Rightarrow> jsnum" where
  "js_div NaN _ = NaN"
| "js_div _ NaN = NaN"
| "js_div (Fin a) (Fin b) =
     (if b = 0 then (if a = 0 then NaN else signed_inf (0 < a)) else fl (a / b))"
| "js_div (Fin a) _ = Fin 0"
| "js_div PosInf (Fin b) = signed_inf (0 \<le> b)"
| "js_div NegInf (Fin b) = signed_inf (b < 0)"
| "js_div _ _ = NaN"

text \<open>The order of the numbers that are not \<open>NaN\<close>, and \<^verbatim>\<open>Math.max\<close>, \<^verbatim>\<open>Math.round\<close>.\<close>

fun js_le :: "jsnum \<Rightarrow> jsnum \<Rightarrow> bool" where
  "js_le NaN _ = False"
| "js_le _ NaN = False"
| "js_le NegInf _ = True"
| "js_le _ PosInf = True"
| "js_le (Fin a) (Fin b) = (a \<le> b)"
| "js_le _ _ = False"

definition js_gt :: "jsnum \<Rightarrow> jsnum \<Rightarrow> bool" where
  "js_gt a b = (js_le b a \<and> a \<noteq> b)"

definition js_lt :: "jsnum \<Rightarrow> jsnum \<Rightarrow> bool" where
  "js_lt a b = (js_le a b \<and> a \<noteq> b)"

definition js_max :: "jsnum \<Rightarrow> jsnum \<Rightarrow> jsnum" where
  "js_max a b = (if a = NaN \<or> b = NaN then NaN else if js_le a b then b else a)"

fun js_round :: "jsnum \<Rightarrow> jsnum" where
  "js_round (Fin q) = Fin (of_int \<lfloor>q + 1 / 2\<rfloor>)"
| "js_round v = v"

text \<open>
  Strings are lists of characters. White space is what \<^verbatim>\<open>trim\<close> and \<^verbatim>\<open>Number\<close>
  skip: tab, line feed, vertical tab, form feed, carriage return, space and the
  no-break space (characters are bytes here; the white space beyond Latin-1 is not
  modelled).
\<close>

definition is_ws :: "char \<Rightarrow> bool" where
  "is_ws c = ((of_char c :: nat) \<in> {9, 10, 11, 12, 13, 32, 160})"

definition js_trim :: "string \<Rightarrow> string" where
  "js_trim s = rev (dropWhile is_ws (rev (dropWhile is_ws s)))"

definition is_digit :: "char \<Rightarrow> bool" where
  "is_digit c = (c \<in> set ''0123456789'')"

definition digit_val :: "char \<Rightarrow> nat" where
  "digit_val c = (of_char c :: nat) - 48"

text \<open>The value of a string of digits in a base, most significant digit first.\<close>

definition digits_val :: "nat \<Rightarrow> (char \<Rightarrow> nat) \<Rightarrow> string \<Rightarrow> nat" where
  "digits_val base dv s = foldl (\<lambda>acc c. acc * base + dv c) 0 s"

abbreviation nat_of_digits :: "string \<Rightarrow> nat" where
  "nat_of_digits s \<equiv> digits_val 10 digit_val s"

text \<open>\<^verbatim>\<open>s.split(sep)\<close> with a one-character separator: never an empty list.\<close>

fun split_on :: "char \<Rightarrow> string \<Rightarrow> string list" where
  "split_on sep [] = [[]]"
| "split_on sep (c # cs) =
     (if c = sep then [] # split_on sep cs
      else (case split_on sep cs of
              [] \<Rightarrow> [[c]]
            | t # ts \<Rightarrow> (c # t) # ts))"

definition startsWith :: "string \<Rightarrow> string \<Rightarrow> bool" where
  "startsWith s p = (take (length p) s = p)"

definition endsWith :: "string \<Rightarrow> string \<Rightarrow> bool" where
  "endsWith s p = (length p \<le> length s \<and> drop (length s - length p) s = p)"

text \<open>\<^verbatim>\<open>s.includes(p)\<close>: \<open>p\<close> occurs in \<open>s\<close>.\<close>

fun str_includes :: "string \<Rightarrow> string \<Rightarrow> bool" where
  "str_includes [] p = (p = [])"
| "str_includes (c # cs) p = (startsWith (c # cs) p \<or> str_includes cs p)"

text \<open>\<^verbatim>\<open>s.replace(p, '')\<close> with a string pattern: the first occurrence of \<open>p\<close> is removed.\<close>

fun remove_first :: "string \<Rightarrow> string \<Rightarrow> string" where
  "remove_first [] p = []"
| "remove_first (c # cs) p =
     (if startsWith (c # cs) p then drop (length p) (c # cs) else c # remove_first cs p)"

subsection \<open>Number applied to a string\<close>

text \<open>
  The grammar of numeric string literals: optional white space around either nothing
  (the value 0), a binary, octal or hexadecimal integer with its prefix, or an optionally
  signed decimal literal (\<^verbatim>\<open>Infinity\<close>, or digits with an optional fraction and an
  optional exponent). Anything else is \<open>NaN\<close>. The value of a literal is its exact
  value rounded to binary64.
\<close>

definition hex_val :: "char \<Rightarrow> nat option" where
  "hex_val c =
     (if is_digit c then Some (digit_val c)
      else if c \<in> set ''abcdef'' then Some ((of_char c :: nat) - 87)
      else if c \<in> set ''ABCDEF'' then Some ((of_char c :: nat) - 55)
      else None)"

definition radix_literal :: "nat \<Rightarrow> string \<Rightarrow> jsnum" where
  "radix_literal base ds =
     (if ds \<noteq> [] \<and> (\<forall>c \<in> set ds. case hex_val c of None \<Rightarrow> False | Some v \<Rightarrow> v < base)
      then fl (of_nat (digits_val base (\<lambda>c. the (hex_val c)) ds))
      else NaN)"

text \<open>The exponent part: empty, or \<^verbatim>\<open>e\<close> with an optionally signed run of digits.\<close>

definition exponent_part :: "string \<Rightarrow> int option" where
  "exponent_part s =
     (case s of
        [] \<Rightarrow> Some 0
      | c # r \<Rightarrow>
          if c = CHR ''e'' \<or> c = CHR ''E'' then
            (let (neg, ds) = (case r of
                                d # r' \<Rightarrow> if d = CHR ''-'' then (True, r')
                                          else if d = CHR ''+'' then (False, r')
                                          else (False, r)
                              | [] \<Rightarrow> (False, r))
             in if ds \<noteq> [] \<and> (\<forall>d \<in> set ds. is_digit d)
                then Some (if neg then - int (nat_of_digits ds) else int (nat_of_digits ds))
                else None)
          else None)"

definition scale10 :: "rat \<Rightarrow> int \<Rightarrow> rat" where
  "scale10 m e = (if 0 \<le> e then m * 10 ^ nat e else m / 10 ^ nat (- e))"

definition unsigned_decimal :: "string \<Rightarrow> jsnum" where
  "unsigned_decimal s =
     (if s = ''Infinity'' then PosInf
      else
        (let ip = takeWhile is_digit s;
             r1 = dropWhile is_digit s;
             dot = (r1 \<noteq> [] \<and> hd r1 = CHR ''.'');
             fp = (if dot then takeWhile is_digit (tl r1) else []);
             r2 = (if dot then dropWhile is_digit (tl r1) else r1)
         in if ip = [] \<and> fp = [] then NaN
            else (case exponent_part r2 of
                    None \<Rightarrow> NaN
                  | Some e \<Rightarrow>
                      fl (scale10 (of_nat (nat_of_digits (ip @ fp))) (e - int (length fp))))))"

fun js_neg :: "jsnum \<Rightarrow> jsnum" where
  "js_neg NaN = NaN"
| "js_neg NegInf = PosInf"
| "js_neg PosInf = NegInf"
| "js_neg (Fin q) = Fin (- q)"

definition decimal_literal :: "string \<Rightarrow> jsnum" where
  "decimal_literal s =
     (case s of
        [] \<Rightarrow> NaN
      | c # r \<Rightarrow>
          if c = CHR ''+'' then unsigned_decimal r
          else if c = CHR ''-'' then js_neg (unsigned_decimal r)
          else unsigned_decimal s)"

definition to_number :: "string \<Rightarrow> jsnum" where
  "to_number str =
     (let s = js_trim str
      in if s = [] then Fin 0
         else if startsWith s ''0x'' \<or> startsWith s ''0X'' then radix_literal 16 (drop 2 s)
         else if startsWith s ''0o'' \<or> startsWith s ''0O'' then radix_literal 8 (drop 2 s)
         else if startsWith s ''0b'' \<or> startsWith s ''0B'' then radix_literal 2 (drop 2 s)
         else decimal_literal s)"

section \<open>Ink-usage scanner (server.js, scanUsedSections)\<close>

text \<open>
  The decoded image: its metadata and the raw buffer of channel bytes that
  \<^verbatim>\<open>img.raw().toBuffer()\<close> returns. The scanner indexes the buffer as three
  channels per pixel, row after row.
\<close>

record image =
  width :: nat
  height :: nat
  rawBuffer :: "nat list"

text \<open>Reading a JavaScript buffer past its end gives \<^verbatim>\<open>undefined\<close>, here \<open>None\<close>.\<close>

definition buf_at :: "nat list \<Rightarrow> nat \<Rightarrow> nat option" where
  "buf_at buf idx = (if idx < length buf then Some (buf ! idx) else None)"

text \<open>The test \<^verbatim>\<open>r === g && g === b\<close> on the three values read at \<open>idx\<close>.\<close>

definition grey_at :: "nat list \<Rightarrow> nat \<Rightarrow> bool" where
  "grey_at buf idx =
     (let r = buf_at buf idx; g = buf_at buf (idx + 1); b = buf_at buf (idx + 2)
      in r = g \<and> g = b)"

text \<open>The inner loop over \<open>x\<close>: true when it sets \<^verbatim>\<open>used\<close> and breaks.\<close>

function scan_row :: "nat list \<Rightarrow> nat \<Rightarrow> nat \<Rightarrow> nat \<Rightarrow> bool" where
  "scan_row buf w rowStartIdx x =
     (if x < w
      then (if \<not> grey_at buf (rowStartIdx + x * 3) then True
            else scan_row buf w rowStartIdx (x + 1))
      else False)"
  by pat_completeness auto
termination
  by (relation "measure (\<lambda>(buf, w, rowStartIdx, x). w - x)") auto

text \<open>The loop over the rows of one band, which stops as soon as \<^verbatim>\<open>used\<close> is set.\<close>

function scan_rows :: "nat list \<Rightarrow> nat \<Rightarrow> nat \<Rightarrow> nat \<Rightarrow> bool" where
  "scan_rows buf w yEnd y =
     (if y < yEnd
      then (if scan_row buf w (y * w * 3) 0 then True
            else scan_rows buf w yEnd (y + 1))
      else False)"
  by pat_completeness auto
termination
  by (relation "measure (\<lambda>(buf, w, yEnd, y). yEnd - y)") auto

definition yStart :: "nat \<Rightarrow> nat \<Rightarrow> nat" where
  "yStart sectionHeight i = i * sectionHeight"

definition yEnd :: "nat \<Rightarrow> nat \<Rightarrow> nat \<Rightarrow> nat" where
  "yEnd h sectionHeight i = (if i = 11 then h else (i + 1) * sectionHeight)"

text \<open>The outer loop over the twelve bands, counting the used ones.\<close>

function scan_bands :: "image \<Rightarrow> nat \<Rightarrow> nat \<Rightarrow> nat \<Rightarrow> nat" where
  "scan_bands img sectionHeight i totalUsedSections =
     (if i < 12
      then (let used = scan_rows (rawBuffer img) (width img)
                         (yEnd (height img) sectionHeight i) (yStart sectionHeight i)
            in scan_bands img sectionHeight (i + 1)
                 (if used then totalUsedSections + 1 else totalUsedSections))
      else totalUsedSections)"
  by pat_completeness auto
termination
  by (relation "measure (\<lambda>(img, sectionHeight, i, t). 12 - i)") auto

definition sectionHeight_of :: "nat \<Rightarrow> nat" where
  "sectionHeight_of h = max 1 (h div 12)"

definition scanUsedSections :: "image \<Rightarrow> nat" where
  "scanUsedSections img = scan_bands img (sectionHeight_of (height img)) 0 0"

text \<open>
  What the image library hands over. The scanner builds its pipeline with
  \<^verbatim>\<open>ensureAlpha().removeAlpha()\<close>; the library removes an alpha channel before it
  ensures one, whatever the order of the calls, so the raw buffer holds four bytes for
  each pixel: red, green, blue and alpha, row after row. A page rendered without
  transparency is opaque, its alpha bytes are 255.
\<close>

type_synonym pixel = "nat \<times> nat \<times> nat"

definition raw_bytes :: "pixel list \<Rightarrow> nat list" where
  "raw_bytes px = concat (map (\<lambda>(r, g, b). [r, g, b, 255]) px)"

text \<open>The decoded image of a page of \<open>w\<close> by \<open>h\<close> pixels, given row by row.\<close>

definition decoded :: "nat \<Rightarrow> nat \<Rightarrow> pixel list \<Rightarrow> image" where
  "decoded w h px = \<lparr>width = w, height = h, rawBuffer = raw_bytes px\<rparr>"

text \<open>A page of one colour.\<close>

definition plain_page :: "nat \<Rightarrow> nat \<Rightarrow> pixel \<Rightarrow> image" where
  "plain_page w h p = decoded w h (replicate (w * h) p)"

text \<open>
  Two small pages for the examples, one pixel wide and twelve high: an all-white one,
  and a white one whose second pixel is red.
\<close>

definition white_page :: image where
  "white_page = plain_page 1 12 (255, 255, 255)"

definition red_dot_page :: image where
  "red_dot_page = decoded 1 12 ((255, 255, 255) # (255, 0, 0) # replicate 10 (255, 255, 255))"

section \<open>Cost endpoint (server.js, POST /calculate-cost)\<close>

text \<open>
  The request body as the client (cost.js) sends it: each field is a string, or
  \<^verbatim>\<open>null\<close> when the page address lacks the parameter (\<open>None\<close>).
\<close>

record request =
  paper :: "string option"
  baseName :: "string option"
  color :: "string option"
  pages :: "string option"
  copies :: "string option"

datatype response =
  Failure string
| Success (res_totalCost : jsnum) (res_usedSections : nat) (res_totalPages : nat)

text \<open>Truthiness of a field: \<^verbatim>\<open>null\<close> and the empty string are falsy.\<close>

definition truthy :: "string option \<Rightarrow> bool" where
  "truthy v = (case v of None \<Rightarrow> False | Some s \<Rightarrow> s \<noteq> [])"

text \<open>\<^verbatim>\<open>String(pages || '')\<close>.\<close>

definition string_or_empty :: "string option \<Rightarrow> string" where
  "string_or_empty v = (case v of None \<Rightarrow> [] | Some s \<Rightarrow> s)"

text \<open>\<^verbatim>\<open>String(pages || '').split(',').map(s => Number(s.trim())).filter(n => !isNaN(n))\<close>.\<close>

definition selectedPages_of :: "string option \<Rightarrow> jsnum list" where
  "selectedPages_of pgs =
     filter (\<lambda>n. \<not> isNaN n)
       (map (\<lambda>s. to_number (js_trim s)) (split_on CHR '','' (string_or_empty pgs)))"

text \<open>
  The page index read off a file name:
  \<^verbatim>\<open>Number(f.replace(baseName + '_', '').replace('.png',''))\<close>. The separator is a
  parameter: the Ghostscript revision of server.js names cached pages with \<^verbatim>\<open>_\<close>, the
  earlier pdf2pic revision in the same file with \<^verbatim>\<open>-\<close>; the code is otherwise the same.
\<close>

definition page_index :: "char \<Rightarrow> string \<Rightarrow> string \<Rightarrow> jsnum" where
  "page_index sep b f = to_number (remove_first (remove_first f (b @ [sep])) ''.png'')"

text \<open>
  \<^verbatim>\<open>Array.prototype.sort\<close> with a comparator is a stable sort; an element goes after
  another when the comparator's value is greater than zero, and a \<open>NaN\<close> value counts as
  zero. Insertion from the right into the sorted rest is such a sort.
\<close>

fun insert_sorted :: "('a \<Rightarrow> 'a \<Rightarrow> jsnum) \<Rightarrow> 'a \<Rightarrow> 'a list \<Rightarrow> 'a list" where
  "insert_sorted cmp x [] = [x]"
| "insert_sorted cmp x (y # ys) =
     (if js_gt (cmp x y) (Fin 0) then y # insert_sorted cmp x ys else x # y # ys)"

definition js_sort :: "('a \<Rightarrow> 'a \<Rightarrow> jsnum) \<Rightarrow> 'a list \<Rightarrow> 'a list" where
  "js_sort cmp xs = foldr (insert_sorted cmp) xs []"

text \<open>The lookup: the two filters and the sort applied to the directory listing.\<close>

definition matched_files :: "char \<Rightarrow> string \<Rightarrow> jsnum list \<Rightarrow> string list \<Rightarrow> string list" where
  "matched_files sep b selectedPages files =
     js_sort (\<lambda>a c. js_sub (page_index sep b a) (page_index sep b c))
       (filter (\<lambda>f. page_index sep b f \<in> set selectedPages)
          (filter (\<lambda>f. startsWith f (b @ [sep])) files))"

text \<open>File names in ascending, and in strictly ascending, order of their page index.\<close>

definition ascending :: "char \<Rightarrow> string \<Rightarrow> string list \<Rightarrow> bool" where
  "ascending sep b fs =
     sorted_wrt (\<lambda>f g. js_le (page_index sep b f) (page_index sep b g)) fs"

definition strictly_ascending :: "char \<Rightarrow> string \<Rightarrow> string list \<Rightarrow> bool" where
  "strictly_ascending sep b fs =
     sorted_wrt (\<lambda>f g. js_lt (page_index sep b f) (page_index sep b g)) fs"

text \<open>
  A cache partition: the entries of the directory in listing order, each with what
  decoding the file gives (an image, or the message of the error raised).
\<close>

type_synonym cache_dir = "(string \<times> (string + image)) list"

definition write_file :: "string \<Rightarrow> image \<Rightarrow> cache_dir \<Rightarrow> cache_dir" where
  "write_file f img dir = map (\<lambda>(n, c). if n = f then (n, Inr img) else (n, c)) dir"

text \<open>
  The colour transform of the Ghostscript revision. The grey-scale conversion itself is
  the image library's and is a parameter \<open>gs\<close>; a failure of it is logged and ignored, and
  the file stays as it was.
\<close>

definition convertToBWIfNeeded ::
  "(image \<Rightarrow> string + image) \<Rightarrow> cache_dir \<Rightarrow> string \<Rightarrow> string option \<Rightarrow> cache_dir" where
  "convertToBWIfNeeded gs dir filePath colorMode =
     (if colorMode = Some ''bw''
      then (case map_of dir filePath of
              Some (Inr img) \<Rightarrow>
                (case gs img of Inr g \<Rightarrow> write_file filePath g dir | Inl e \<Rightarrow> dir)
            | _ \<Rightarrow> dir)
      else dir)"

text \<open>Scanning a file of the partition: decoding it may raise.\<close>

definition scan_file :: "cache_dir \<Rightarrow> string \<Rightarrow> string + nat" where
  "scan_file dir f =
     (case map_of dir f of
        Some (Inr img) \<Rightarrow> Inr (scanUsedSections img)
      | Some (Inl e) \<Rightarrow> Inl e
      | None \<Rightarrow> Inl ''ENOENT'')"

text \<open>The sequential loop over the matched files; an error ends it.\<close>

fun scan_matched ::
  "(image \<Rightarrow> string + image) \<Rightarrow> string option \<Rightarrow> string list \<Rightarrow> cache_dir \<Rightarrow> nat
     \<Rightarrow> (string + nat) \<times> cache_dir" where
  "scan_matched gs col [] dir totalUsedSections = (Inr totalUsedSections, dir)"
| "scan_matched gs col (f # fs) dir totalUsedSections =
     (let dir' = convertToBWIfNeeded gs dir f col
      in case scan_file dir' f of
           Inl e \<Rightarrow> (Inl e, dir')
         | Inr used \<Rightarrow> scan_matched gs col fs dir' (totalUsedSections + used))"

text \<open>
  The page count and the band count are counts of files and of bands: whole numbers far
  below \<open>2 ^ 53\<close>, which binary64 holds exactly.
\<close>

definition baseCost :: "string option \<Rightarrow> jsnum" where
  "baseCost col = (if col = Some ''color'' then Fin 10 else Fin 5)"

definition sectionCharge :: "string option \<Rightarrow> nat \<Rightarrow> jsnum" where
  "sectionCharge col totalUsedSections =
     (if col = Some ''color'' then js_mul (Fin (of_nat totalUsedSections)) (Fin (1 / 2))
      else Fin 0)"

text \<open>\<^verbatim>\<open>Number(copies || 1)\<close>.\<close>

definition copies_number :: "string option \<Rightarrow> jsnum" where
  "copies_number c = (case c of None \<Rightarrow> Fin 1 | Some s \<Rightarrow> if s = [] then Fin 1 else to_number s)"

definition total_cost :: "string option \<Rightarrow> nat \<Rightarrow> nat \<Rightarrow> string option \<Rightarrow> jsnum" where
  "total_cost col pageCount totalUsedSections c =
     js_round (js_mul (js_add (js_mul (baseCost col) (Fin (of_nat pageCount)))
                              (sectionCharge col totalUsedSections))
                      (copies_number c))"

text \<open>
  The formula of the earlier (pdf2pic) revision, which adds the band charge in every
  colour mode.
\<close>

definition total_cost_pdf2pic_revision ::
  "string option \<Rightarrow> nat \<Rightarrow> nat \<Rightarrow> string option \<Rightarrow> jsnum" where
  "total_cost_pdf2pic_revision col pageCount totalUsedSections c =
     js_round (js_mul (js_add (js_mul (baseCost col) (Fin (of_nat pageCount)))
                              (js_mul (Fin (of_nat totalUsedSections)) (Fin (1 / 2))))
                      (copies_number c))"

text \<open>
  The handler. \<open>readdir\<close> is the outcome of listing the directory that the \<open>paper\<close>
  field names under the cache root: the partition, or the message of the error raised.
  The handler returns its response and the partition as the colour transform left it.
\<close>

definition calculate_cost ::
  "(image \<Rightarrow> string + image) \<Rightarrow> string + cache_dir \<Rightarrow> request
     \<Rightarrow> response \<times> (string + cache_dir)" where
  "calculate_cost gs readdir req =
     (if \<not> truthy (paper req) \<or> \<not> truthy (baseName req)
      then (Failure ''Missing params'', readdir)
      else
        (let selectedPages = selectedPages_of (pages req)
         in if selectedPages = [] then (Failure ''No pages selected'', readdir)
            else
              (case readdir of
                 Inl e \<Rightarrow> (Failure e, readdir)
               | Inr dir \<Rightarrow>
                   (let matched = matched_files CHR ''_'' (string_or_empty (baseName req))
                                    selectedPages (map fst dir)
                    in if matched = [] then (Failure ''No cached images found.'', readdir)
                       else
                         (case scan_matched gs (color req) matched dir 0 of
                            (Inl e, dir') \<Rightarrow> (Failure e, Inr dir')
                          | (Inr totalUsedSections, dir') \<Rightarrow>
                              (Success
                                 (total_cost (color req) (length matched) totalUsedSections
                                    (copies req))
                                 totalUsedSections (length matched),
                               Inr dir'))))))"

section \<open>Cleanup endpoint (server.js, DELETE /delete-last/:baseName)\<close>

text \<open>
  The files the handler touches: the listings of the two cache partitions (or the message
  of the error that listing raises) and the names in the uploads directory.
\<close>

datatype folder = LetterCache | LegalCache | Uploads

record store =
  letterCache :: "string + string list"
  legalCache :: "string + string list"
  uploadsDir :: "string list"

datatype delete_response = Delete_failed string | Deleted

text \<open>\<^verbatim>\<open>.replace(/[^a-zA-Z0-9_\-]/g, '')\<close>.\<close>

definition sanitize_baseName :: "string \<Rightarrow> string" where
  "sanitize_baseName s =
     filter (\<lambda>c. c \<in> set ''abcdefghijklmnopqrstuvwxyzABCDEFGHIJKLMNOPQRSTUVWXYZ0123456789_-'') s"

text \<open>
  Which cached files the handler unlinks: the Ghostscript revision matches both prefixes,
  the earlier pdf2pic revision only the one with \<^verbatim>\<open>-\<close>.
\<close>

definition cleanup_match :: "string \<Rightarrow> string \<Rightarrow> bool" where
  "cleanup_match b f = (startsWith f (b @ ''_'') \<or> startsWith f (b @ ''-''))"

definition cleanup_match_pdf2pic_revision :: "string \<Rightarrow> string \<Rightarrow> bool" where
  "cleanup_match_pdf2pic_revision b f = startsWith f (b @ ''-'')"

text \<open>
  \<^verbatim>\<open>fsPromise.unlink(...).catch(()=>{})\<close> on every selected file: \<open>unlink_ok\<close> says
  whether the file system removes the file; a failure is swallowed and the file stays.
\<close>

definition unlink_all ::
  "(folder \<Rightarrow> string \<Rightarrow> bool) \<Rightarrow> folder \<Rightarrow> (string \<Rightarrow> bool) \<Rightarrow> string list \<Rightarrow> string list" where
  "unlink_all unlink_ok d selected files =
     filter (\<lambda>f. \<not> (selected f \<and> unlink_ok d f)) files"

text \<open>The two extreme file systems: every removal succeeds, every removal fails.\<close>

definition unlink_succeeds :: "folder \<Rightarrow> string \<Rightarrow> bool" where
  "unlink_succeeds d f = True"

definition unlink_fails :: "folder \<Rightarrow> string \<Rightarrow> bool" where
  "unlink_fails d f = False"

definition delete_last_with ::
  "(string \<Rightarrow> string \<Rightarrow> bool) \<Rightarrow> (folder \<Rightarrow> string \<Rightarrow> bool) \<Rightarrow> string \<Rightarrow> store
     \<Rightarrow> delete_response \<times> store" where
  "delete_last_with match unlink_ok param st =
     (let b = sanitize_baseName param
      in if b = [] then (Delete_failed ''Invalid basename'', st)
         else
           (case letterCache st of
              Inl e \<Rightarrow> (Delete_failed e, st)
            | Inr files \<Rightarrow>
                (let st1 = st\<lparr>letterCache := Inr (unlink_all unlink_ok LetterCache (match b) files)\<rparr>
                 in case legalCache st1 of
                      Inl e \<Rightarrow> (Delete_failed e, st1)
                    | Inr files' \<Rightarrow>
                        (let st2 = st1\<lparr>legalCache :=
                                          Inr (unlink_all unlink_ok LegalCache (match b) files')\<rparr>;
                             letterPDF = b @ ''_letter.pdf'';
                             legalPDF = b @ ''_legal.pdf''
                         in (Deleted,
                             st2\<lparr>uploadsDir :=
                                   unlink_all unlink_ok Uploads
                                     (\<lambda>f. f = letterPDF \<or> f = legalPDF) (uploadsDir st2)\<rparr>)))))"

definition delete_last ::
  "(folder \<Rightarrow> string \<Rightarrow> bool) \<Rightarrow> string \<Rightarrow> store \<Rightarrow> delete_response \<times> store" where
  "delete_last = delete_last_with cleanup_match"

definition delete_last_pdf2pic_revision ::
  "(folder \<Rightarrow> string \<Rightarrow> bool) \<Rightarrow> string \<Rightarrow> store \<Rightarrow> delete_response \<times> store" where
  "delete_last_pdf2pic_revision = delete_last_with cleanup_match_pdf2pic_revision"

text \<open>
  The lookup of the cost endpoint on a partition of the store, for the naming of the
  Ghostscript revision; a partition that cannot be listed has no result.
\<close>

definition lookup :: "string + string list \<Rightarrow> string \<Rightarrow> jsnum list \<Rightarrow> string list option" where
  "lookup part b pageNumbers =
     (case part of
        Inl e \<Rightarrow> None
      | Inr files \<Rightarrow> Some (matched_files CHR ''_'' b pageNumbers files))"

text \<open>A basename is valid when it is not empty and the sanitizer leaves it alone.\<close>

definition valid_baseName :: "string \<Rightarrow> bool" where
  "valid_baseName b = (b \<noteq> [] \<and> sanitize_baseName b = b)"

section \<open>Rasterization adapter (server.js)\<close>

datatype exec_result = Exec_error string | Exec_done (stdout : string) (stderr : string)

definition path_join :: "string \<Rightarrow> string \<Rightarrow> string" where
  "path_join d f = d @ ''/'' @ f"

definition path_basename :: "string \<Rightarrow> string" where
  "path_basename p = rev (takeWhile (\<lambda>c. c \<noteq> CHR ''/'') (rev p))"

text \<open>The test on a file name that selects the engine's output.\<close>

definition is_output_file :: "string \<Rightarrow> string \<Rightarrow> bool" where
  "is_output_file b f = (startsWith f (b @ ''_'') \<and> endsWith f ''.png'')"

text \<open>
  The engine is an external process: \<open>run\<close> is the outcome of \<^verbatim>\<open>execPromise\<close> (an
  error, or the two output streams) and \<open>listing\<close> the outcome of listing the output
  directory afterwards. Every error raised inside is raised again with a prefix.
\<close>

definition convertPdfToPngsWithGhostscript ::
  "exec_result \<Rightarrow> string + string list \<Rightarrow> string \<Rightarrow> string \<Rightarrow> string + string list" where
  "convertPdfToPngsWithGhostscript run listing outDir b =
     (let attempt =
        (case run of
           Exec_error e \<Rightarrow> Inl e
         | Exec_done out err \<Rightarrow>
             if err \<noteq> [] \<and> \<not> str_includes err ''Warning''
             then Inl (''Ghostscript Error: '' @ err)
             else
               (case listing of
                  Inl e \<Rightarrow> Inl e
                | Inr files \<Rightarrow>
                    (let pngPaths = map (path_join outDir) (filter (is_output_file b) files)
                     in if pngPaths = []
                        then Inl ''Ghostscript finished, but no PNG files found. The PDF may be corrupted or missing content.''
                        else Inr pngPaths)))
      in case attempt of
           Inl e \<Rightarrow> Inl (''Ghostscript conversion failed: '' @ e)
         | Inr pngPaths \<Rightarrow> Inr pngPaths)"

text \<open>
  The adapter of the earlier revision: \<open>bulk\<close> is the outcome of \<^verbatim>\<open>convert.bulk(-1)\<close>,
  an error or one record per page with its success flag and file name. An empty result
  is only logged.
\<close>

definition convertPdfToPngsWithPdf2Pic ::
  "string + (bool \<times> string) list \<Rightarrow> string \<Rightarrow> string + string list" where
  "convertPdfToPngsWithPdf2Pic bulk outDir =
     (case bulk of
        Inl e \<Rightarrow> Inl (''PDF2PIC conversion failed: '' @ e)
      | Inr result \<Rightarrow> Inr (map (\<lambda>r. path_join outDir (snd r)) (filter fst result)))"

section \<open>PDF normalizer (server.js, resizePDF)\<close>

record placement =
  draw_x :: jsnum
  draw_y :: jsnum
  draw_width :: jsnum
  draw_height :: jsnum

record new_page =
  page_size :: "jsnum \<times> jsnum"
  drawn :: placement

text \<open>
  A value read from an object: a number, or \<^verbatim>\<open>undefined\<close> when the object has no
  such property. The global \<^verbatim>\<open>isNaN\<close> and \<^verbatim>\<open>Math.max\<close> convert their argument to
  a number first, and \<^verbatim>\<open>undefined\<close> converts to \<open>NaN\<close>.
\<close>

datatype jsval = Undefined | Num jsnum

definition to_num :: "jsval \<Rightarrow> jsnum" where
  "to_num v = (case v of Undefined \<Rightarrow> NaN | Num n \<Rightarrow> n)"

text \<open>
  An embedded page is given by its width and height. In the library, \<^verbatim>\<open>size\<close> of
  an embedded page is a method that returns the two; the loop does not call it but
  reads the properties \<^verbatim>\<open>width\<close> and \<^verbatim>\<open>height\<close> of the method itself, and a
  function has neither.
\<close>

definition size_property :: "jsnum \<times> jsnum \<Rightarrow> jsval" where
  "size_property embeddedPage = Undefined"

text \<open>
  The sanitizing of one dimension read that way (\<open>safeWidth\<close>, \<open>safeHeight\<close>) and
  the scale factor computed from it (\<open>scaleX\<close>, \<open>scaleY\<close>): the loop body below does
  this once for the width and once for the height.
\<close>

definition safe_dimension :: "jsval \<Rightarrow> jsnum" where
  "safe_dimension d = js_max (Fin 1) (if isNaN (to_num d) then Fin 1 else to_num d)"

definition scale_factor :: "jsnum \<Rightarrow> jsval \<Rightarrow> jsnum" where
  "scale_factor target d = js_div target (safe_dimension d)"

text \<open>One iteration of the loop over the source pages, for one embedded page.\<close>

definition resize_page :: "jsnum \<Rightarrow> jsnum \<Rightarrow> jsnum \<times> jsnum \<Rightarrow> new_page" where
  "resize_page targetWidth targetHeight embeddedPage =
     (let w = size_property embeddedPage; h = size_property embeddedPage;
          sanitizedWidth = (if isNaN (to_num w) then Fin 1 else to_num w);
          sanitizedHeight = (if isNaN (to_num h) then Fin 1 else to_num h);
          safeWidth = js_max (Fin 1) sanitizedWidth;
          safeHeight = js_max (Fin 1) sanitizedHeight;
          scaleX = js_div targetWidth safeWidth;
          scaleY = js_div targetHeight safeHeight
      in \<lparr>page_size = (targetWidth, targetHeight),
          drawn = \<lparr>draw_x = Fin 0, draw_y = Fin 0,
                    draw_width = js_mul safeWidth scaleX,
                    draw_height = js_mul safeHeight scaleY\<rparr>\<rparr>)"

text \<open>
  What the library's \<^verbatim>\<open>drawPage\<close> does with the extent it is asked to draw: it
  scales each axis of the embedded page by the requested extent divided by the page's
  own extent on that axis.
\<close>

definition drawPage_scale :: "jsnum \<times> jsnum \<Rightarrow> placement \<Rightarrow> jsnum \<times> jsnum" where
  "drawPage_scale embeddedPage options =
     (js_div (draw_width options) (fst embeddedPage),
      js_div (draw_height options) (snd embeddedPage))"

text \<open>
  The normalizer on the outcome of reading and loading the input: the message of the
  error, or the sizes of the pages. Embedding, saving and writing are taken to succeed.
\<close>

definition resizePDF :: "string + (jsnum \<times> jsnum) list \<Rightarrow> jsnum \<Rightarrow> jsnum \<Rightarrow> string + new_page list" where
  "resizePDF loaded targetWidth targetHeight =
     (case loaded of
        Inl e \<Rightarrow> Inl e
      | Inr sizes \<Rightarrow> Inr (map (resize_page targetWidth targetHeight) sizes))"

section \<open>Upload endpoint (server.js, POST /upload)\<close>

text \<open>
  What the handler meets on its way: the outcome of receiving the file (an error, no
  file, or the stored file name), of reading and loading it (an error, or the sizes of
  its pages, the first one apart: a loaded document has a page), and of the two engine
  runs with the listings of the partitions after them.
\<close>

record upload_env =
  received :: "string + string option"
  source :: "string + (jsnum \<times> jsnum) \<times> (jsnum \<times> jsnum) list"
  run_letter :: exec_result
  listing_letter :: "string + string list"
  run_legal :: exec_result
  listing_legal :: "string + string list"

datatype upload_response =
  Upload_failed string
| Uploaded (letter_images : "string list") (legal_images : "string list")
    (page_count : nat) (originalSize : string) (session : string)

text \<open>\<^verbatim>\<open>(err && err.message) || 'Conversion failed'\<close>.\<close>

definition failure_message :: "string \<Rightarrow> string" where
  "failure_message e = (if e = [] then ''Conversion failed'' else e)"

text \<open>\<^verbatim>\<open>path.parse(name).name\<close>: the name without its last extension.\<close>

definition path_parse_name :: "string \<Rightarrow> string" where
  "path_parse_name f =
     (let ext = takeWhile (\<lambda>c. c \<noteq> CHR ''.'') (rev f)
      in if length ext + 1 < length f then take (length f - length ext - 1) f else f)"

definition original_size :: "jsnum \<times> jsnum \<Rightarrow> string" where
  "original_size sz =
     (let origW = fst sz; origH = snd sz
      in if js_round origW = Fin 612 \<and> js_round origH = Fin 792 then ''letter''
         else if js_round origW = Fin 612 \<and> js_round origH = Fin 1008 then ''legal''
         else if js_gt origH (Fin 900) then ''legal'' else ''letter'')"

definition upload :: "upload_env \<Rightarrow> upload_response" where
  "upload env =
     (case received env of
        Inl e \<Rightarrow> Upload_failed (failure_message e)
      | Inr None \<Rightarrow> Upload_failed ''No file uploaded''
      | Inr (Some filename) \<Rightarrow>
          (let b = path_parse_name filename
           in case source env of
                Inl e \<Rightarrow> Upload_failed (failure_message e)
              | Inr (firstPage, others) \<Rightarrow>
                  (case resizePDF (Inr (firstPage # others)) (Fin 612) (Fin 792) of
                     Inl e \<Rightarrow> Upload_failed (failure_message e)
                   | Inr letterPDF \<Rightarrow>
                  (case resizePDF (Inr (firstPage # others)) (Fin 612) (Fin 1008) of
                     Inl e \<Rightarrow> Upload_failed (failure_message e)
                   | Inr legalPDF \<Rightarrow>
                  (case convertPdfToPngsWithGhostscript (run_letter env) (listing_letter env)
                          ''cache/letter'' b of
                     Inl e \<Rightarrow> Upload_failed (failure_message e)
                   | Inr letterPngPaths \<Rightarrow>
                  (case convertPdfToPngsWithGhostscript (run_legal env) (listing_legal env)
                          ''cache/legal'' b of
                     Inl e \<Rightarrow> Upload_failed (failure_message e)
                   | Inr legalPngPaths \<Rightarrow>
                       Uploaded
                         (map (\<lambda>p. ''/cache/letter/'' @ path_basename p) letterPngPaths)
                         (map (\<lambda>p. ''/cache/legal/'' @ path_basename p) legalPngPaths)
                         (length others + 1) (original_size firstPage) b))))))"

section \<open>Page selection parser (public/app.js, parsePageSelection)\<close>

text \<open>The two token shapes: \<^verbatim>\<open>/^\d+-\d+$/\<close> and \<^verbatim>\<open>/^\d+$/\<close>.\<close>

definition is_range_token :: "string \<Rightarrow> bool" where
  "is_range_token part =
     (let a = takeWhile is_digit part; r = dropWhile is_digit part
      in a \<noteq> [] \<and> r \<noteq> [] \<and> hd r = CHR ''-'' \<and> tl r \<noteq> [] \<and> (\<forall>c \<in> set (tl r). is_digit c))"

definition is_number_token :: "string \<Rightarrow> bool" where
  "is_number_token part = (part \<noteq> [] \<and> (\<forall>c \<in> set part. is_digit c))"

text \<open>\<^verbatim>\<open>Math.max(1, Math.min(n, totalPages))\<close>.\<close>

definition clamp_page :: "nat \<Rightarrow> nat \<Rightarrow> nat" where
  "clamp_page totalPages n = max 1 (min n totalPages)"

text \<open>A JavaScript \<^verbatim>\<open>Set\<close> keeps its elements in the order of their first insertion.\<close>

definition set_add :: "nat \<Rightarrow> nat list \<Rightarrow> nat list" where
  "set_add i ps = (if i \<in> set ps then ps else ps @ [i])"

text \<open>\<^verbatim>\<open>String(n)\<close> for a natural number: its decimal digits.\<close>

function string_of_nat :: "nat \<Rightarrow> string" where
  "string_of_nat n =
     (if n < 10 then [char_of (48 + n)]
      else string_of_nat (n div 10) @ [char_of (48 + n mod 10)])"
  by pat_completeness auto
termination
  by (relation "measure id") auto

fun join :: "string \<Rightarrow> string list \<Rightarrow> string" where
  "join sep [] = []"
| "join sep [x] = x"
| "join sep (x # y # ys) = x @ sep @ join sep (y # ys)"

text \<open>
  One iteration of the loop over the tokens, on the set of pages and the list of
  corrected parts. On a token of digits, \<^verbatim>\<open>Number\<close> is the decimal value,
  exactly so below \<open>2 ^ 53\<close> (lemma \<open>to_number_digits_exact\<close>).
\<close>

definition parse_part :: "nat \<Rightarrow> nat list \<times> string list \<Rightarrow> string \<Rightarrow> nat list \<times> string list" where
  "parse_part totalPages acc part =
     (let pgs = fst acc; correctedParts = snd acc
      in if is_range_token part then
           (let start0 = clamp_page totalPages (nat_of_digits (takeWhile is_digit part));
                end0 = clamp_page totalPages (nat_of_digits (tl (dropWhile is_digit part)));
                start = (if start0 > end0 then end0 else start0);
                end = (if start0 > end0 then start0 else end0)
            in (foldl (\<lambda>ps i. set_add i ps) pgs [start..<end + 1],
                correctedParts @ [string_of_nat start @ ''-'' @ string_of_nat end]))
         else if is_number_token part then
           (let num = clamp_page totalPages (nat_of_digits part)
            in (set_add num pgs, correctedParts @ [string_of_nat num]))
         else acc)"

text \<open>
  The parser returns the pages; the second component is what it writes back into the
  input field (nothing when the input is empty).
\<close>

definition parsePageSelection :: "string \<Rightarrow> nat \<Rightarrow> nat list \<times> string option" where
  "parsePageSelection input totalPages =
     (if input = [] then ([], None)
      else
        (let ranges = map js_trim (split_on CHR '','' input);
             res = foldl (parse_part totalPages) ([], []) ranges
         in (fst res, Some (join '', '' (snd res)))))"

text \<open>
  The pages a token stands for, in the words of the specification: each endpoint clamped
  into \<open>[1, N]\<close>, the pair swapped when out of order, a single number clamped the same
  way, any other token dropped.
\<close>

definition token_pages :: "nat \<Rightarrow> string \<Rightarrow> nat set" where
  "token_pages N tok =
     (if is_range_token tok then
        (let a = clamp_page N (nat_of_digits (takeWhile is_digit tok));
             b = clamp_page N (nat_of_digits (tl (dropWhile is_digit tok)))
         in {min a b .. max a b})
      else if is_number_token tok then {clamp_page N (nat_of_digits tok)}
      else {})"

declare scan_row.simps [simp del]
declare string_of_nat.simps [simp del]
declare scan_rows.simps [simp del]
declare scan_bands.simps [simp del]

section \<open>Properties of binary64 rounding\<close>

lemma ilog2_nat:
  assumes "0 < m"
  shows "ilog2 (int m) 1 = bitlen (int m) - 1"
proof -
  have b: "2 ^ nat (bitlen (int m) - 1) \<le> int m"
    using bitlen_bounds [of "int m"] assms by simp
  have ge: "1 \<le> bitlen (int m)" using assms by (auto simp: bitlen_alt_def)
  have b1: "bitlen 1 = 1" by (simp add: bitlen_alt_def)
  show ?thesis using b ge by (simp add: ilog2_def Let_def b1)
qed

lemma round_half_even_int: "round_half_even i 1 = i"
  by (simp add: round_half_even_def)

text \<open>A whole number below \<open>2 ^ 53\<close> is a binary64 value: rounding leaves it alone.\<close>

lemma fl_nat:
  assumes "m < 2 ^ 53"
  shows "fl (of_nat m) = Fin (of_nat m)"
proof (cases "m = 0")
  case True
  then show ?thesis by (simp add: fl_def)
next
  case False
  then have pos: "0 < m" by simp
  let ?b = "bitlen (int m)"
  have ge: "1 \<le> ?b" using pos by (auto simp: bitlen_alt_def)
  have le: "?b \<le> 53"
  proof (rule ccontr)
    assume "\<not> ?b \<le> 53"
    then have "54 \<le> ?b" by simp
    then have "(2::int) ^ 53 \<le> 2 ^ nat (?b - 1)" by (intro power_increasing) auto
    also have "\<dots> \<le> int m" using bitlen_bounds [of "int m"] pos by simp
    finally have "(2::int) ^ 53 \<le> int m" .
    moreover have "int m < 2 ^ 53"
      using assms by (metis of_nat_less_iff of_nat_numeral of_nat_power)
    ultimately show False by simp
  qed
  define n where "n = nat (53 - ?b)"
  have q: "quotient_of \<bar>of_nat m\<bar> = (int m, 1)"
    using quotient_of_rat_of_int [of "int m"] by simp
  have e: "max (ilog2 (int m) 1 - 52) (- 1074) = ?b - 53"
    using ge by (simp add: ilog2_nat [OF pos])
  have bl: "bitlen (int m * 2 ^ n) = 53"
    using pos le by (simp add: n_def)
  have restore: "(of_int (int m * 2 ^ n) :: rat) / of_int (2 ^ n) = of_nat m"
    by simp
  show ?thesis
  proof (cases "?b = 53")
    case True
    then have n0: "n = 0" by (simp add: n_def)
    show ?thesis
      using pos True bl
      by (simp add: fl_def Let_def q e n0 round_half_even_int)
  next
    case False
    with le have neg: "\<not> 0 \<le> ?b - 53" by simp
    have nn: "nat (- (?b - 53)) = n" by (simp add: n_def)
    have "fl (of_nat m) =
            (let mm = round_half_even (int m * 2 ^ n) 1
             in if 1024 < ?b - 53 + bitlen mm then PosInf
                else Fin (of_int mm / of_int (2 ^ n)))"
      using pos neg by (simp add: fl_def Let_def q e n_def [symmetric])
    also have "\<dots> = Fin (of_nat m)"
      unfolding round_half_even_int Let_def bl restore using le by simp
    finally show ?thesis .
  qed
qed

lemma fl_not_NaN: "fl q \<noteq> NaN"
  by (simp add: fl_def Let_def)

text \<open>
  Rounding at work: 4.1 is not a binary64 value, and fifteen times its nearest one lies
  just below 61.5; above \<open>2 ^ 53\<close> odd whole numbers are lost; a total for
  \<^verbatim>\<open>1e309\<close> copies overflows to infinity.
\<close>

lemma fl_examples:
  "fl (41 / 10) = Fin (2308094809027379 / 562949953421312)
   \<and> fl 9007199254740993 = Fin 9007199254740992
   \<and> fl (1 / 2) = Fin (1 / 2)
   \<and> to_number ''4.1'' = Fin (2308094809027379 / 562949953421312)
   \<and> js_mul (Fin 15) (to_number ''4.1'') = Fin (8655355533852671 / 140737488355328)
   \<and> total_cost (Some ''bw'') 3 4 (Some ''1e309'') = PosInf"
  by code_simp

section \<open>Properties of the ink-usage scanner\<close>

subsection \<open>What the loops compute\<close>



lemma scan_row_iff:
  "scan_row buf w s x = (\<exists>x'. x \<le> x' \<and> x' < w \<and> \<not> grey_at buf (s + x' * 3))"
proof (induction buf w s x rule: scan_row.induct)
  case (1 buf w s x)
  show ?case
  proof (cases "x < w")
    case False
    then show ?thesis by (subst scan_row.simps) auto
  next
    case True
    show ?thesis
    proof (cases "grey_at buf (s + x * 3)")
      case False
      with True show ?thesis by (subst scan_row.simps) auto
    next
      case g: True
      have "scan_row buf w s x = scan_row buf w s (x + 1)"
        using True g by (subst scan_row.simps) simp
      also have "\<dots> = (\<exists>x'. x + 1 \<le> x' \<and> x' < w \<and> \<not> grey_at buf (s + x' * 3))"
        using "1.IH" True g by simp
      also have "\<dots> = (\<exists>x'. x \<le> x' \<and> x' < w \<and> \<not> grey_at buf (s + x' * 3))"
      proof
        assume "\<exists>x'. x + 1 \<le> x' \<and> x' < w \<and> \<not> grey_at buf (s + x' * 3)"
        then show "\<exists>x'. x \<le> x' \<and> x' < w \<and> \<not> grey_at buf (s + x' * 3)"
          by (meson add_leD1)
      next
        assume "\<exists>x'. x \<le> x' \<and> x' < w \<and> \<not> grey_at buf (s + x' * 3)"
        then obtain x' where x': "x \<le> x'" "x' < w" "\<not> grey_at buf (s + x' * 3)" by blast
        with g have "x' \<noteq> x" by auto
        with x' have "x + 1 \<le> x'" by simp
        with x' show "\<exists>x'. x + 1 \<le> x' \<and> x' < w \<and> \<not> grey_at buf (s + x' * 3)" by blast
      qed
      finally show ?thesis .
    qed
  qed
qed

lemma scan_rows_iff:
  "scan_rows buf w e y = (\<exists>y'. y \<le> y' \<and> y' < e \<and> scan_row buf w (y' * w * 3) 0)"
proof (induction buf w e y rule: scan_rows.induct)
  case (1 buf w e y)
  show ?case
  proof (cases "y < e")
    case False
    then show ?thesis by (subst scan_rows.simps) auto
  next
    case True
    show ?thesis
    proof (cases "scan_row buf w (y * w * 3) 0")
      case u: True
      with True show ?thesis by (subst scan_rows.simps) auto
    next
      case g: False
      have "scan_rows buf w e y = scan_rows buf w e (y + 1)"
        using True g by (subst scan_rows.simps) simp
      also have "\<dots> = (\<exists>y'. y + 1 \<le> y' \<and> y' < e \<and> scan_row buf w (y' * w * 3) 0)"
        using "1.IH" True g by simp
      also have "\<dots> = (\<exists>y'. y \<le> y' \<and> y' < e \<and> scan_row buf w (y' * w * 3) 0)"
      proof
        assume "\<exists>y'. y + 1 \<le> y' \<and> y' < e \<and> scan_row buf w (y' * w * 3) 0"
        then show "\<exists>y'. y \<le> y' \<and> y' < e \<and> scan_row buf w (y' * w * 3) 0"
          by (meson add_leD1)
      next
        assume "\<exists>y'. y \<le> y' \<and> y' < e \<and> scan_row buf w (y' * w * 3) 0"
        then obtain y' where y': "y \<le> y'" "y' < e" "scan_row buf w (y' * w * 3) 0" by blast
        with g have "y' \<noteq> y" by auto
        with y' have "y + 1 \<le> y'" by simp
        with y' show "\<exists>y'. y + 1 \<le> y' \<and> y' < e \<and> scan_row buf w (y' * w * 3) 0" by blast
      qed
      finally show ?thesis .
    qed
  qed
qed

lemma scan_bands_count:
  "scan_bands img sh i t =
     t + card {j. i \<le> j \<and> j < 12 \<and>
                  scan_rows (rawBuffer img) (width img) (yEnd (height img) sh j) (yStart sh j)}"
proof (induction img sh i t rule: scan_bands.induct)
  case (1 img sh i t)
  let ?U = "\<lambda>j. scan_rows (rawBuffer img) (width img) (yEnd (height img) sh j) (yStart sh j)"
  show ?case
  proof (cases "i < 12")
    case False
    then have "{j. i \<le> j \<and> j < 12 \<and> ?U j} = {}" by auto
    with False show ?thesis by (subst scan_bands.simps) simp
  next
    case True
    have fin: "finite {j. i + 1 \<le> j \<and> j < 12 \<and> ?U j}" by simp
    have notin: "i \<notin> {j. i + 1 \<le> j \<and> j < 12 \<and> ?U j}" by simp
    have split: "{j. i \<le> j \<and> j < 12 \<and> ?U j} =
        (if ?U i then insert i {j. i + 1 \<le> j \<and> j < 12 \<and> ?U j} else {j. i + 1 \<le> j \<and> j < 12 \<and> ?U j})"
      using True by (auto simp: Suc_le_eq le_less)
    have "scan_bands img sh i t = scan_bands img sh (i + 1) (if ?U i then t + 1 else t)"
      using True by (subst scan_bands.simps) (simp add: Let_def)
    also have "\<dots> = (if ?U i then t + 1 else t) + card {j. i + 1 \<le> j \<and> j < 12 \<and> ?U j}"
      using "1.IH" [OF True refl] by simp
    also have "\<dots> = t + card {j. i \<le> j \<and> j < 12 \<and> ?U j}"
      unfolding split using fin notin by (simp del: One_nat_def)
    finally show ?thesis .
  qed
qed

text \<open>
  What the three loops compute, for any buffer: the number of bands in which some
  position the loops visit holds three values that are not all equal. A position past
  the end of the buffer reads as undefined.
\<close>

lemma scanUsedSections_card:
  "scanUsedSections img =
     card {i. i < 12 \<and>
              (\<exists>y x. i * sectionHeight_of (height img) \<le> y
                 \<and> y < (if i = 11 then height img else (i + 1) * sectionHeight_of (height img))
                 \<and> x < width img
                 \<and> \<not> grey_at (rawBuffer img) (y * width img * 3 + x * 3))}"
  by (simp add: scanUsedSections_def scan_bands_count scan_rows_iff scan_row_iff
        yStart_def yEnd_def)

text \<open>
  Claim C7. The claim asks for 0 used bands on an all-black image. The buffer the
  scanner is handed holds four bytes per pixel and the loops step through it three at a
  time, so the alpha bytes of an opaque black page fall on colour positions: on a page
  one pixel wide and twelve high three rows in four read as coloured and 9 bands count
  as used; on a page two pixels wide all 12 do. An all-white page gives 0, all its
  bytes being equal.
\<close>

theorem scanUsedSections_black_page:
  "scanUsedSections (plain_page 1 12 (0, 0, 0)) = 9
   \<and> scanUsedSections (plain_page 2 12 (0, 0, 0)) = 12
   \<and> scanUsedSections (plain_page 2 12 (255, 255, 255)) = 0"
  by code_simp

section \<open>Properties of Number on page tokens\<close>

lemma digit_not_ws: "is_digit c \<Longrightarrow> \<not> is_ws c"
  by (auto simp: is_digit_def is_ws_def)

lemma js_trim_id:
  assumes "s \<noteq> []" "\<not> is_ws (hd s)" "\<not> is_ws (last s)"
  shows "js_trim s = s"
proof -
  have a: "dropWhile is_ws s = s" using assms(1,2) by (cases s) auto
  have "rev s \<noteq> []" "\<not> is_ws (hd (rev s))" using assms(1,3) by (auto simp: hd_rev)
  then have "dropWhile is_ws (rev s) = rev s" by (cases "rev s") auto
  with a show ?thesis by (simp add: js_trim_def)
qed

lemma js_trim_number_token: "is_number_token s \<Longrightarrow> js_trim s = s"
  by (rule js_trim_id) (auto simp: is_number_token_def digit_not_ws)

lemma range_token_shape:
  assumes "is_range_token s"
  obtains a b where "s = a @ CHR ''-'' # b" "a \<noteq> []" "b \<noteq> []"
    "\<forall>c \<in> set a. is_digit c" "\<forall>c \<in> set b. is_digit c"
    "takeWhile is_digit s = a" "dropWhile is_digit s = CHR ''-'' # b"
proof -
  let ?a = "takeWhile is_digit s" and ?r = "dropWhile is_digit s"
  from assms have r: "?a \<noteq> []" "?r \<noteq> []" "hd ?r = CHR ''-''" "tl ?r \<noteq> []"
    "\<forall>c \<in> set (tl ?r). is_digit c"
    by (auto simp: is_range_token_def Let_def)
  then have r': "?r = CHR ''-'' # tl ?r" by (cases ?r) auto
  have "s = ?a @ ?r" by simp
  then have "s = ?a @ CHR ''-'' # tl ?r" using r' by simp
  moreover have "\<forall>c \<in> set ?a. is_digit c" by (auto dest: set_takeWhileD)
  ultimately show ?thesis using r r' that by blast
qed

lemma js_trim_range_token: "is_range_token s \<Longrightarrow> js_trim s = s"
proof -
  assume "is_range_token s"
  then obtain a b where s: "s = a @ CHR ''-'' # b" "a \<noteq> []" "b \<noteq> []"
    "\<forall>c \<in> set a. is_digit c" "\<forall>c \<in> set b. is_digit c"
    by (rule range_token_shape)
  have "hd s = hd a" using s by simp
  moreover have "last s = last b" using s by simp
  ultimately show ?thesis using s
    by (intro js_trim_id) (auto simp: digit_not_ws)
qed

lemma not_radix_prefix:
  assumes "s \<noteq> []" "is_digit (hd s)" "length s < 2 \<or> is_digit (s ! 1) \<or> s ! 1 = CHR ''-''"
  shows "\<not> startsWith s [CHR ''0'', p] \<or> p \<notin> set ''xXoObB''"
proof (cases s)
  case Nil with assms show ?thesis by simp
next
  case (Cons c cs)
  show ?thesis
  proof (cases cs)
    case Nil with Cons show ?thesis by (simp add: startsWith_def)
  next
    case (Cons d ds)
    with \<open>s = c # cs\<close> assms(3) have "is_digit d \<or> d = CHR ''-''" by simp
    then have "d \<notin> set ''xXoObB''" by (auto simp: is_digit_def)
    with Cons \<open>s = c # cs\<close> show ?thesis by (auto simp: startsWith_def)
  qed
qed

lemma to_number_decimal:
  assumes "s \<noteq> []" "is_digit (hd s)" "length s < 2 \<or> is_digit (s ! 1) \<or> s ! 1 = CHR ''-''"
    "js_trim s = s"
  shows "to_number s = unsigned_decimal s"
proof -
  have np: "\<not> startsWith s [CHR ''0'', p]" if "p \<in> set ''xXoObB''" for p
    using not_radix_prefix [OF assms(1-3), of p] that by blast
  have sign: "hd s \<noteq> CHR ''+''" "hd s \<noteq> CHR ''-''"
    using assms(2) by (auto simp: is_digit_def)
  have "decimal_literal s = unsigned_decimal s"
    using assms(1) sign by (cases s) (auto simp: decimal_literal_def)
  then show ?thesis
    using assms(1,4) np by (simp add: to_number_def)
qed

lemma to_number_digits:
  assumes "is_number_token s"
  shows "to_number s = fl (of_nat (nat_of_digits s))"
proof -
  from assms have ne: "s \<noteq> []" and dig: "\<forall>c \<in> set s. is_digit c"
    by (auto simp: is_number_token_def)
  have hd: "is_digit (hd s)" using ne dig by (cases s) auto
  have snd: "length s < 2 \<or> is_digit (s ! 1) \<or> s ! 1 = CHR ''-''"
    using dig by (cases "length s < 2") auto
  have tw: "takeWhile is_digit s = s" "dropWhile is_digit s = []" using dig by auto
  have ninf: "s \<noteq> ''Infinity''" using hd by (auto simp: is_digit_def)
  have "to_number s = unsigned_decimal s"
    using ne hd snd js_trim_number_token [OF assms] by (rule to_number_decimal)
  also have "\<dots> = fl (of_nat (nat_of_digits s))"
    using ne ninf by (simp add: unsigned_decimal_def Let_def tw exponent_part_def scale10_def)
  finally show ?thesis .
qed

text \<open>Below \<open>2 ^ 53\<close> the value of a token of digits is kept exactly.\<close>

lemma to_number_digits_exact:
  assumes "is_number_token s" "nat_of_digits s < 2 ^ 53"
  shows "to_number s = Fin (of_nat (nat_of_digits s))"
  using to_number_digits [OF assms(1)] fl_nat [OF assms(2)] by simp

lemma to_number_range:
  assumes "is_range_token s"
  shows "to_number s = NaN"
proof -
  from assms obtain a b where s: "s = a @ CHR ''-'' # b" "a \<noteq> []" "b \<noteq> []"
    "\<forall>c \<in> set a. is_digit c" "\<forall>c \<in> set b. is_digit c"
    "takeWhile is_digit s = a" "dropWhile is_digit s = CHR ''-'' # b"
    by (rule range_token_shape)
  have ne: "s \<noteq> []" using s by simp
  have hd: "is_digit (hd s)" using s by (cases a) auto
  have snd: "length s < 2 \<or> is_digit (s ! 1) \<or> s ! 1 = CHR ''-''"
  proof (cases a)
    case Nil with s show ?thesis by simp
  next
    case (Cons c cs)
    then show ?thesis using s by (cases cs) auto
  qed
  have ninf: "s \<noteq> ''Infinity''" using hd by (auto simp: is_digit_def)
  have "to_number s = unsigned_decimal s"
    using ne hd snd js_trim_range_token [OF assms] by (rule to_number_decimal)
  also have "\<dots> = NaN"
    using ninf s(2) by (simp add: unsigned_decimal_def Let_def s(6,7) exponent_part_def)
  finally show ?thesis .
qed

section \<open>Properties of the cache lookup\<close>

lemma js_gt_sub: "a \<noteq> NaN \<Longrightarrow> b \<noteq> NaN \<Longrightarrow> js_gt (js_sub a b) (Fin 0) = (\<not> js_le a b)"
  by (cases a; cases b) (auto simp: js_gt_def)

lemma js_le_total: "a \<noteq> NaN \<Longrightarrow> b \<noteq> NaN \<Longrightarrow> js_le a b \<or> js_le b a"
  by (cases a; cases b) auto

lemma js_le_trans: "js_le a b \<Longrightarrow> js_le b c \<Longrightarrow> js_le a c"
  by (cases a; cases b; cases c) auto

lemma set_insert_sorted: "set (insert_sorted cmp x ys) = insert x (set ys)"
  by (induction ys) auto

lemma mset_insert_sorted: "mset (insert_sorted cmp x ys) = add_mset x (mset ys)"
  by (induction ys) auto

lemma mset_js_sort: "mset (js_sort cmp xs) = mset xs"
  by (induction xs) (auto simp: js_sort_def mset_insert_sorted)

lemma set_js_sort: "set (js_sort cmp xs) = set xs"
  using mset_js_sort [of cmp xs] by (metis set_mset_mset)

lemma sorted_insert_sorted:
  assumes "k x \<noteq> NaN" "\<forall>y \<in> set ys. k y \<noteq> NaN"
    "sorted_wrt (\<lambda>f g. js_le (k f) (k g)) ys"
  shows "sorted_wrt (\<lambda>f g. js_le (k f) (k g)) (insert_sorted (\<lambda>a c. js_sub (k a) (k c)) x ys)"
  using assms
proof (induction ys)
  case Nil
  then show ?case by simp
next
  case (Cons y ys)
  show ?case
  proof (cases "js_le (k x) (k y)")
    case True
    have "js_le (k x) (k z)" if "z \<in> set ys" for z
      using True Cons.prems(3) that js_le_trans by auto
    with True Cons.prems show ?thesis by (simp add: js_gt_sub)
  next
    case False
    then have "js_le (k y) (k x)" using js_le_total Cons.prems(1,2) by auto
    with False Cons show ?thesis by (simp add: js_gt_sub set_insert_sorted)
  qed
qed

lemma sorted_js_sort:
  assumes "\<forall>y \<in> set xs. k y \<noteq> NaN"
  shows "sorted_wrt (\<lambda>f g. js_le (k f) (k g)) (js_sort (\<lambda>a c. js_sub (k a) (k c)) xs)"
  using assms
proof (induction xs)
  case Nil
  then show ?case by (simp add: js_sort_def)
next
  case (Cons x xs)
  have "sorted_wrt (\<lambda>f g. js_le (k f) (k g))
          (insert_sorted (\<lambda>a c. js_sub (k a) (k c)) x (js_sort (\<lambda>a c. js_sub (k a) (k c)) xs))"
    using Cons by (intro sorted_insert_sorted) (auto simp: set_js_sort)
  then show ?case by (simp add: js_sort_def)
qed

lemma sorted_wrt_strict:
  "sorted_wrt (\<lambda>f g. js_le (k f) (k g)) xs \<Longrightarrow> distinct (map k xs)
     \<Longrightarrow> sorted_wrt (\<lambda>f g. js_lt (k f) (k g)) xs"
  by (induction xs) (auto simp: js_lt_def)

lemma selectedPages_of_no_NaN: "NaN \<notin> set (selectedPages_of p)"
  by (simp add: selectedPages_of_def isNaN_def)

lemma mset_matched_files:
  "mset (matched_files sep b sel files) =
     mset (filter (\<lambda>f. startsWith f (b @ [sep]) \<and> page_index sep b f \<in> set sel) files)"
  by (simp add: matched_files_def mset_js_sort conj_commute)


lemma sorted_matched_files:
  assumes "NaN \<notin> set sel"
  shows "sorted_wrt (\<lambda>f g. js_le (page_index sep b f) (page_index sep b g))
           (matched_files sep b sel files)"
  unfolding matched_files_def
  by (rule sorted_js_sort) (use assms in auto)

section \<open>Properties of the cost endpoint\<close>

lemma calculate_cost_Success:
  assumes "calculate_cost gs readdir req = (Success tc used n, d')"
  shows "\<exists>dir dir'. truthy (paper req) \<and> truthy (baseName req)
    \<and> selectedPages_of (pages req) \<noteq> [] \<and> readdir = Inr dir
    \<and> matched_files CHR ''_'' (string_or_empty (baseName req)) (selectedPages_of (pages req))
       (map fst dir) \<noteq> []
    \<and> scan_matched gs (color req)
       (matched_files CHR ''_'' (string_or_empty (baseName req)) (selectedPages_of (pages req))
          (map fst dir)) dir 0 = (Inr used, dir')
    \<and> d' = Inr dir'
    \<and> n = length (matched_files CHR ''_'' (string_or_empty (baseName req))
                   (selectedPages_of (pages req)) (map fst dir))
    \<and> tc = total_cost (color req) n used (copies req)"
  using assms
  by (auto simp: calculate_cost_def Let_def split: if_splits sum.splits prod.splits)

text \<open>
  Claim C1. Whenever the cost endpoint answers with a total, at least one cached page
  matched and the page count is the number of matched files. In \<^verbatim>\<open>color\<close> mode the
  total is the rounding of 10 times the page count plus one half per used band, times
  the copies; in every other mode, \<^verbatim>\<open>bw\<close> among them, it is the rounding of 5 times
  the page count, plus nothing, times the copies, whatever the band count. The
  arithmetic is that of the program: each product and sum is rounded to binary64 and
  \<open>js_round\<close> is \<^verbatim>\<open>Math.round\<close>; below \<open>2 ^ 53\<close> the product 5 times the page count
  is exact. Three pages in \<^verbatim>\<open>bw\<close> with four used bands cost 30 for two copies and
  61 for 4.1 copies (the product is just below 61.5); one page in \<^verbatim>\<open>color\<close> with
  one used band costs 11, the half rounding up.
\<close>

theorem ink_surcharge_only_in_color:
  assumes "calculate_cost gs readdir req = (Success tc used n, d')"
  shows "0 < n
    \<and> (\<exists>dir. readdir = Inr dir
          \<and> n = length (matched_files CHR ''_'' (string_or_empty (baseName req))
                          (selectedPages_of (pages req)) (map fst dir)))
    \<and> (color req = Some ''color'' \<longrightarrow>
         tc = js_round (js_mul (js_add (js_mul (Fin 10) (Fin (of_nat n)))
                                       (js_mul (Fin (of_nat used)) (Fin (1 / 2))))
                               (copies_number (copies req))))
    \<and> (color req \<noteq> Some ''color'' \<longrightarrow>
         tc = js_round (js_mul (js_add (js_mul (Fin 5) (Fin (of_nat n))) (Fin 0))
                               (copies_number (copies req))))
    \<and> (color req \<noteq> Some ''color'' \<and> 5 * n < 2 ^ 53 \<longrightarrow>
         tc = js_round (js_mul (Fin (5 * of_nat n)) (copies_number (copies req))))
    \<and> total_cost (Some ''bw'') 3 4 (Some ''2'') = Fin 30
    \<and> total_cost (Some ''bw'') 3 4 (Some ''4.1'') = Fin 61
    \<and> total_cost (Some ''color'') 3 0 (Some ''2'') = Fin 60
    \<and> total_cost (Some ''color'') 1 1 (Some ''1'') = Fin 11
    \<and> total_cost (Some ''bw'') 1 0 (Some ''-0.5'') = Fin (- 2)"
proof -
  from calculate_cost_Success [OF assms] obtain dir :: cache_dir where
    rd: "readdir = Inr dir"
    and m: "matched_files CHR ''_'' (string_or_empty (baseName req)) (selectedPages_of (pages req))
          (map fst dir) \<noteq> []"
    and n: "n = length (matched_files CHR ''_'' (string_or_empty (baseName req))
                   (selectedPages_of (pages req)) (map fst dir))"
    and tc: "tc = total_cost (color req) n used (copies req)"
    by blast
  have a: "0 < n" using m n by simp
  have b: "\<exists>dir. readdir = Inr dir
          \<and> n = length (matched_files CHR ''_'' (string_or_empty (baseName req))
                          (selectedPages_of (pages req)) (map fst dir))"
    using rd n by blast
  have c: "tc = js_round (js_mul (js_add (js_mul (Fin 10) (Fin (of_nat n)))
                                       (js_mul (Fin (of_nat used)) (Fin (1 / 2))))
                               (copies_number (copies req)))"
    if "color req = Some ''color''"
    using tc that by (simp add: total_cost_def baseCost_def sectionCharge_def)
  have d: "tc = js_round (js_mul (js_add (js_mul (Fin 5) (Fin (of_nat n))) (Fin 0))
                               (copies_number (copies req)))"
    if "color req \<noteq> Some ''color''"
    using tc that by (simp add: total_cost_def baseCost_def sectionCharge_def)
  have e: "tc = js_round (js_mul (Fin (5 * of_nat n)) (copies_number (copies req)))"
    if "color req \<noteq> Some ''color'' \<and> 5 * n < 2 ^ 53"
  proof -
    from that have lt: "5 * n < 2 ^ 53" by simp
    have "fl (of_nat (5 * n)) = Fin (of_nat (5 * n))" using lt by (rule fl_nat)
    then have f: "fl (5 * of_nat n) = Fin (5 * of_nat n)" by simp
    have "js_add (js_mul (Fin 5) (Fin (of_nat n))) (Fin 0) = Fin (5 * of_nat n)"
      by (simp add: f)
    with d that show ?thesis by simp
  qed
  have x1: "total_cost (Some ''bw'') 3 4 (Some ''2'') = Fin 30" by code_simp
  have x2: "total_cost (Some ''bw'') 3 4 (Some ''4.1'') = Fin 61" by code_simp
  have x3: "total_cost (Some ''color'') 3 0 (Some ''2'') = Fin 60" by code_simp
  have x4: "total_cost (Some ''color'') 1 1 (Some ''1'') = Fin 11" by code_simp
  have x5: "total_cost (Some ''bw'') 1 0 (Some ''-0.5'') = Fin (- 2)" by code_simp
  from a b c d e x1 x2 x3 x4 x5 show ?thesis by blast
qed

text \<open>
  Two pages with a red pixel and a white one, in \<^verbatim>\<open>bw\<close> mode with a grey-scale
  conversion that fails and is ignored: four bands count as used and are not charged.
\<close>

theorem ink_surcharge_only_in_color_witness:
  "calculate_cost (\<lambda>img. Inl ''conversion failed'')
     (Inr [(''b_1.png'', Inr red_dot_page),
           (''b_2.png'', Inr red_dot_page),
           (''b_3.png'', Inr white_page)])
     \<lparr>paper = Some ''letter'', baseName = Some ''b'', color = Some ''bw'',
      pages = Some ''1,2,3'', copies = Some ''2''\<rparr>
   = (Success (Fin 30) 4 3,
      Inr [(''b_1.png'', Inr red_dot_page),
           (''b_2.png'', Inr red_dot_page),
           (''b_3.png'', Inr white_page)])
   \<and> Fin 30 = js_round (js_mul (Fin (5 * of_nat 3)) (copies_number (Some ''2'')))"
proof -
  let ?dir = "[(''b_1.png'', Inr red_dot_page),
           (''b_2.png'', Inr red_dot_page),
           (''b_3.png'', Inr white_page)]"
  let ?req = "\<lparr>paper = Some ''letter'', baseName = Some ''b'', color = Some ''bw'',
      pages = Some ''1,2,3'', copies = Some ''2''\<rparr>"
  have run: "calculate_cost (\<lambda>img. Inl ''conversion failed'') (Inr ?dir) ?req
             = (Success (Fin 30) 4 3, Inr ?dir)"
    by code_simp
  have small: "5 * (3::nat) < 2 ^ 53" by simp
  have bw: "color ?req \<noteq> Some ''color''" by simp
  have cp: "copies ?req = Some ''2''" by simp
  from ink_surcharge_only_in_color [OF run]
  have "color ?req \<noteq> Some ''color'' \<and> 5 * (3::nat) < 2 ^ 53 \<longrightarrow>
          Fin 30 = js_round (js_mul (Fin (5 * of_nat 3)) (copies_number (copies ?req)))"
    by blast
  with bw small
  have "Fin 30 = js_round (js_mul (Fin (5 * of_nat 3)) (copies_number (copies ?req)))"
    by blast
  then have "Fin 30 = js_round (js_mul (Fin (5 * of_nat 3)) (copies_number (Some ''2'')))"
    unfolding cp .
  with run show ?thesis by blast
qed

text \<open>
  The formula of the earlier revision charges the bands in \<^verbatim>\<open>bw\<close> mode as well:
  three pages, four used bands, two copies.
\<close>

lemma total_cost_pdf2pic_revision_charges_bw:
  "total_cost_pdf2pic_revision (Some ''bw'') 3 4 (Some ''2'') = Fin 34
   \<and> total_cost (Some ''bw'') 3 4 (Some ''2'') = Fin 30"
  by code_simp

text \<open>
  Claim C8. A request for which no cached file matches the basename, the partition and
  the selected pages is never answered with a total: the response is a failure, and when
  the lookup ran (parameters present, a page selected, the partition listed) its message
  is the cache-miss message, which differs from the other two messages of the handler.
\<close>

theorem cache_miss_is_reported:
  assumes "\<forall>dir. readdir = Inr dir \<longrightarrow>
             matched_files CHR ''_'' (string_or_empty (baseName req))
               (selectedPages_of (pages req)) (map fst dir) = []"
  shows "(\<exists>m. fst (calculate_cost gs readdir req) = Failure m)
    \<and> (truthy (paper req) \<and> truthy (baseName req) \<and> selectedPages_of (pages req) \<noteq> []
         \<and> (\<exists>dir. readdir = Inr dir)
       \<longrightarrow> calculate_cost gs readdir req = (Failure ''No cached images found.'', readdir))
    \<and> ''No cached images found.'' \<noteq> ''Missing params''
    \<and> ''No cached images found.'' \<noteq> ''No pages selected''"
proof -
  have fail: "\<exists>m. fst (calculate_cost gs readdir req) = Failure m"
  proof (cases "fst (calculate_cost gs readdir req)")
    case (Failure m)
    then show ?thesis by blast
  next
    case (Success tc used n)
    then have "calculate_cost gs readdir req = (Success tc used n, snd (calculate_cost gs readdir req))"
      by (metis prod.collapse)
    from calculate_cost_Success [OF this] obtain dir :: cache_dir where "readdir = Inr dir"
      "matched_files CHR ''_'' (string_or_empty (baseName req)) (selectedPages_of (pages req))
          (map fst dir) \<noteq> []"
      by blast
    with assms show ?thesis by blast
  qed
  have miss: "calculate_cost gs readdir req = (Failure ''No cached images found.'', readdir)"
    if "truthy (paper req)" "truthy (baseName req)" "selectedPages_of (pages req) \<noteq> []"
      "\<exists>dir. readdir = Inr dir"
    using that assms by (auto simp: calculate_cost_def Let_def)
  from fail miss show ?thesis by simp
qed

theorem cache_miss_is_reported_witness:
  "calculate_cost Inr (Inr [(''b_1.png'', Inr red_dot_page)])
     \<lparr>paper = Some ''letter'', baseName = Some ''other'', color = Some ''color'',
      pages = Some ''1'', copies = Some ''1''\<rparr>
   = (Failure ''No cached images found.'',
      Inr [(''b_1.png'', Inr red_dot_page)])"
proof -
  let ?dir = "[(''b_1.png'', Inr red_dot_page)]"
  let ?req = "\<lparr>paper = Some ''letter'', baseName = Some ''other'', color = Some ''color'',
      pages = Some ''1'', copies = Some ''1''\<rparr>"
  have none: "\<forall>dir. (Inr ?dir :: string + cache_dir) = Inr dir \<longrightarrow>
             matched_files CHR ''_'' (string_or_empty (baseName ?req))
               (selectedPages_of (pages ?req)) (map fst dir) = []"
  proof (intro allI impI)
    fix dir assume "(Inr ?dir :: string + cache_dir) = Inr dir"
    then have d: "dir = ?dir" by simp
    show "matched_files CHR ''_'' (string_or_empty (baseName ?req))
               (selectedPages_of (pages ?req)) (map fst dir) = []"
      unfolding d by code_simp
  qed
  have p: "truthy (paper ?req)" "truthy (baseName ?req)" by (simp_all add: truthy_def)
  have s: "selectedPages_of (pages ?req) \<noteq> []" by code_simp
  from cache_miss_is_reported [OF none, of Inr] p s show ?thesis by blast
qed

text \<open>
  Claim C6, as amended. The lookup returns the matching file names in ascending order of
  the page index read off each name: never descending, and strictly ascending whenever
  no two returned names carry the same index. The returned names are exactly the listed
  names with the basename prefix whose index is among the requested pages.
\<close>

theorem lookup_sorted_by_page_index:
  "ascending sep b
     (matched_files sep b (selectedPages_of p) files)
   \<and> (distinct (map (page_index sep b) (matched_files sep b (selectedPages_of p) files))
        \<longrightarrow> strictly_ascending sep b
              (matched_files sep b (selectedPages_of p) files))
   \<and> mset (matched_files sep b (selectedPages_of p) files) =
       mset (filter (\<lambda>f. startsWith f (b @ [sep])
                          \<and> page_index sep b f \<in> set (selectedPages_of p)) files)"
proof -
  have s: "sorted_wrt (\<lambda>f g. js_le (page_index sep b f) (page_index sep b g))
             (matched_files sep b (selectedPages_of p) files)"
    using selectedPages_of_no_NaN by (rule sorted_matched_files)
  from s sorted_wrt_strict [OF s] mset_matched_files show ?thesis
    unfolding ascending_def strictly_ascending_def by blast
qed

theorem lookup_sorted_by_page_index_witness:
  "matched_files CHR ''_'' ''b'' (selectedPages_of (Some ''3,1,2''))
     [''b_3.png'', ''b_10.png'', ''b_1.png'', ''c_2.png'', ''b_2.png'']
   = [''b_1.png'', ''b_2.png'', ''b_3.png'']
   \<and> strictly_ascending CHR ''_'' ''b''
       (matched_files CHR ''_'' ''b'' (selectedPages_of (Some ''3,1,2''))
          [''b_3.png'', ''b_10.png'', ''b_1.png'', ''c_2.png'', ''b_2.png''])"
proof -
  have m: "matched_files CHR ''_'' ''b'' (selectedPages_of (Some ''3,1,2''))
     [''b_3.png'', ''b_10.png'', ''b_1.png'', ''c_2.png'', ''b_2.png'']
   = [''b_1.png'', ''b_2.png'', ''b_3.png'']"
    by code_simp
  have d: "distinct (map (page_index CHR ''_'' ''b'')
     (matched_files CHR ''_'' ''b'' (selectedPages_of (Some ''3,1,2''))
     [''b_3.png'', ''b_10.png'', ''b_1.png'', ''c_2.png'', ''b_2.png'']))"
    by code_simp
  from lookup_sorted_by_page_index [of "CHR ''_''" "''b''" "Some ''3,1,2''"
      "[''b_3.png'', ''b_10.png'', ''b_1.png'', ''c_2.png'', ''b_2.png'']"] d m
  show ?thesis by blast
qed

text \<open>
  The claim as stated fails when two cached names carry the same index: with
  \<^verbatim>\<open>b_1.png\<close> and \<^verbatim>\<open>b_01.png\<close> in the partition and page 1 requested, both are
  returned, and their indices are equal.
\<close>

theorem lookup_not_strictly_ascending:
  "matched_files CHR ''_'' ''b'' (selectedPages_of (Some ''1'')) [''b_1.png'', ''b_01.png'']
     = [''b_1.png'', ''b_01.png'']
   \<and> \<not> strictly_ascending CHR ''_'' ''b''
        (matched_files CHR ''_'' ''b'' (selectedPages_of (Some ''1''))
           [''b_1.png'', ''b_01.png''])"
  by code_simp









lemma selectedPages_of_tokens:
  "selectedPages_of pgs =
     map (\<lambda>t. to_number (js_trim t))
       (filter (\<lambda>t. to_number (js_trim t) \<noteq> NaN) (split_on CHR '','' (string_or_empty pgs)))"
  by (simp add: selectedPages_of_def isNaN_def filter_map comp_def)

text \<open>
  Claim C9, as amended. The pages parameter is split on commas and each token is trimmed
  and converted with Number; the selected pages are the values that are not NaN, in
  order. A range token (digits, a hyphen, digits) converts to NaN and is dropped; a
  token of decimal digits is kept as its value (rounded to binary64, so exactly when
  below \<open>2 ^ 53\<close>). When no token survives, the request
  fails with the message No pages selected, so a parameter made of range tokens only is
  answered with that failure: ranges are never expanded by the server.
\<close>

theorem range_tokens_are_dropped:
  "selectedPages_of pgs =
     map (\<lambda>t. to_number (js_trim t))
       (filter (\<lambda>t. to_number (js_trim t) \<noteq> NaN) (split_on CHR '','' (string_or_empty pgs)))
   \<and> (is_range_token (js_trim t) \<longrightarrow> to_number (js_trim t) = NaN)
   \<and> (is_number_token (js_trim t) \<longrightarrow>
        to_number (js_trim t) = fl (of_nat (nat_of_digits (js_trim t)))
        \<and> to_number (js_trim t) \<noteq> NaN)
   \<and> (is_number_token (js_trim t) \<and> nat_of_digits (js_trim t) < 2 ^ 53 \<longrightarrow>
        to_number (js_trim t) = Fin (of_nat (nat_of_digits (js_trim t))))
   \<and> ((\<forall>t \<in> set (split_on CHR '','' (string_or_empty (pages req))). is_range_token (js_trim t))
        \<longrightarrow> selectedPages_of (pages req) = [])
   \<and> (truthy (paper req) \<and> truthy (baseName req) \<and> selectedPages_of (pages req) = []
        \<longrightarrow> calculate_cost gs readdir req = (Failure ''No pages selected'', readdir))"
proof -
  have r: "to_number (js_trim t) = NaN" if "is_range_token (js_trim t)" for t
    using to_number_range [OF that] .
  have d: "to_number (js_trim t) = fl (of_nat (nat_of_digits (js_trim t)))
        \<and> to_number (js_trim t) \<noteq> NaN"
    if "is_number_token (js_trim t)"
    using to_number_digits [OF that] fl_not_NaN by simp
  have x: "to_number (js_trim t) = Fin (of_nat (nat_of_digits (js_trim t)))"
    if "is_number_token (js_trim t) \<and> nat_of_digits (js_trim t) < 2 ^ 53"
    using that to_number_digits_exact by blast
  have e: "selectedPages_of (pages req) = []"
    if "\<forall>t \<in> set (split_on CHR '','' (string_or_empty (pages req))). is_range_token (js_trim t)"
  proof -
    have "filter (\<lambda>t. to_number (js_trim t) \<noteq> NaN)
            (split_on CHR '','' (string_or_empty (pages req))) = []"
      using that r by (auto simp: filter_empty_conv)
    then show ?thesis by (simp add: selectedPages_of_tokens)
  qed
  have f: "calculate_cost gs readdir req = (Failure ''No pages selected'', readdir)"
    if "truthy (paper req) \<and> truthy (baseName req) \<and> selectedPages_of (pages req) = []"
    using that by (simp add: calculate_cost_def)
  from selectedPages_of_tokens r d x e f show ?thesis by blast
qed

theorem range_tokens_are_dropped_witness:
  "calculate_cost Inr
     (Inr [(''b_1.png'', Inr red_dot_page)])
     \<lparr>paper = Some ''letter'', baseName = Some ''b'', color = Some ''color'',
      pages = Some ''1-3, 2-2'', copies = Some ''1''\<rparr>
   = (Failure ''No pages selected'',
      Inr [(''b_1.png'', Inr red_dot_page)])
   \<and> to_number (js_trim '' 1-3'') = NaN
   \<and> to_number (js_trim '' 12 '') = Fin (of_nat (nat_of_digits (js_trim '' 12 '')))"
proof -
  let ?rd = "Inr [(''b_1.png'', Inr red_dot_page)]
               :: string + cache_dir"
  let ?req = "\<lparr>paper = Some ''letter'', baseName = Some ''b'', color = Some ''color'',
      pages = Some ''1-3, 2-2'', copies = Some ''1''\<rparr>"
  have toks: "\<forall>t \<in> set (split_on CHR '','' (string_or_empty (pages ?req))). is_range_token (js_trim t)"
    by code_simp
  have p: "truthy (paper ?req)" "truthy (baseName ?req)" by (simp_all add: truthy_def)
  have rt: "is_range_token (js_trim '' 1-3'')" by code_simp
  have nt: "is_number_token (js_trim '' 12 '')" by code_simp
  have "nat_of_digits (js_trim '' 12 '') = 12" by code_simp
  then have small: "nat_of_digits (js_trim '' 12 '') < 2 ^ 53" by simp
  from range_tokens_are_dropped [of "pages ?req" "'' 1-3''" ?req Inr ?rd] toks p rt
  have a: "calculate_cost Inr ?rd ?req = (Failure ''No pages selected'', ?rd)"
    and b: "to_number (js_trim '' 1-3'') = NaN"
    by blast+
  from range_tokens_are_dropped [of "pages ?req" "'' 12 ''" ?req Inr ?rd] nt small
  have c: "to_number (js_trim '' 12 '') = Fin (of_nat (nat_of_digits (js_trim '' 12 '')))"
    by blast
  from a b c show ?thesis by blast
qed

text \<open>
  The claim as stated fails for tokens that are not numerals and still convert to a
  number: Number of the empty token is 0, so an empty pages parameter selects page 0 and
  the request goes on to the lookup; a hexadecimal token is read as its value.
\<close>

theorem non_numeral_tokens_survive:
  "\<not> is_number_token (js_trim '''')
   \<and> selectedPages_of (Some '''') = [Fin 0]
   \<and> selectedPages_of None = [Fin 0]
   \<and> \<not> is_number_token (js_trim ''0x10'')
   \<and> selectedPages_of (Some ''1,0x10'') = [Fin 1, Fin 16]
   \<and> calculate_cost Inr
        (Inr [(''b_1.png'', Inr red_dot_page)])
        \<lparr>paper = Some ''letter'', baseName = Some ''b'', color = Some ''color'',
         pages = Some '''', copies = Some ''1''\<rparr>
      = (Failure ''No cached images found.'',
         Inr [(''b_1.png'', Inr red_dot_page)])"
  by code_simp

section \<open>Properties of the page selection parser\<close>

lemma set_set_add: "set (set_add i ps) = insert i (set ps)"
  by (auto simp: set_add_def)

lemma distinct_set_add: "distinct ps \<Longrightarrow> distinct (set_add i ps)"
  by (simp add: set_add_def)

lemma set_foldl_set_add: "set (foldl (\<lambda>ps i. set_add i ps) ps xs) = set ps \<union> set xs"
  by (induction xs arbitrary: ps) (auto simp: set_set_add)

lemma distinct_foldl_set_add:
  "distinct ps \<Longrightarrow> distinct (foldl (\<lambda>ps i. set_add i ps) ps xs)"
  by (induction xs arbitrary: ps) (auto simp: distinct_set_add)

lemma set_parse_part: "set (fst (parse_part N acc part)) = set (fst acc) \<union> token_pages N part"
proof (cases "is_range_token part")
  case True
  let ?a = "clamp_page N (nat_of_digits (takeWhile is_digit part))"
  let ?b = "clamp_page N (nat_of_digits (tl (dropWhile is_digit part)))"
  have "set [(if ?a > ?b then ?b else ?a)..<(if ?a > ?b then ?a else ?b) + 1] = {min ?a ?b .. max ?a ?b}"
    by (auto simp: min_def max_def)
  with True show ?thesis
    by (simp add: parse_part_def token_pages_def Let_def set_foldl_set_add del: upt_Suc)
next
  case False
  then show ?thesis
    by (simp add: parse_part_def token_pages_def Let_def set_set_add)
qed

lemma distinct_parse_part: "distinct (fst acc) \<Longrightarrow> distinct (fst (parse_part N acc part))"
  by (simp add: parse_part_def Let_def distinct_foldl_set_add distinct_set_add)

lemma set_foldl_parse_part:
  "set (fst (foldl (parse_part N) acc toks)) = set (fst acc) \<union> (\<Union>tok \<in> set toks. token_pages N tok)"
  by (induction toks arbitrary: acc) (auto simp: set_parse_part)

lemma distinct_foldl_parse_part:
  "distinct (fst acc) \<Longrightarrow> distinct (fst (foldl (parse_part N) acc toks))"
  by (induction toks arbitrary: acc) (auto simp: distinct_parse_part)

lemma clamp_page_bounds: "1 \<le> N \<Longrightarrow> 1 \<le> clamp_page N n \<and> clamp_page N n \<le> N"
  by (simp add: clamp_page_def)

lemma token_pages_bounds:
  assumes "1 \<le> N" "p \<in> token_pages N tok"
  shows "1 \<le> p \<and> p \<le> N"
proof -
  have c: "1 \<le> clamp_page N n" "clamp_page N n \<le> N" for n
    using clamp_page_bounds [OF assms(1)] by auto
  show ?thesis
  proof (cases "is_range_token tok")
    case True
    let ?a = "clamp_page N (nat_of_digits (takeWhile is_digit tok))"
    let ?b = "clamp_page N (nat_of_digits (tl (dropWhile is_digit tok)))"
    from True assms(2) have "min ?a ?b \<le> p" "p \<le> max ?a ?b"
      by (auto simp: token_pages_def Let_def)
    moreover have "1 \<le> min ?a ?b" "max ?a ?b \<le> N" using c by auto
    ultimately show ?thesis by linarith
  next
    case False
    with assms(2) c show ?thesis
      by (auto simp: token_pages_def split: if_splits)
  qed
qed

lemma set_parsePageSelection:
  "set (fst (parsePageSelection input N)) =
     (\<Union>tok \<in> set (map js_trim (split_on CHR '','' input)). token_pages N tok)"
proof (cases "input = []")
  case True
  have "token_pages N (js_trim []) = {}"
    by (simp add: token_pages_def js_trim_def is_range_token_def is_number_token_def)
  with True show ?thesis by (simp add: parsePageSelection_def)
next
  case False
  then show ?thesis
    by (simp add: parsePageSelection_def Let_def set_foldl_parse_part)
qed

text \<open>
  Claim C2. For a page count \<open>N\<close> of at least 1 and any input, the parser returns a list
  without duplicates whose members all lie between 1 and \<open>N\<close>, and whose set is the
  union, over the comma-separated trimmed tokens, of the pages each token stands for
  (endpoints clamped, swapped when out of order, other tokens dropped). The input
  \<^verbatim>\<open>5-2\<close> with \<open>N = 10\<close> gives 2, 3, 4, 5 and writes back \<^verbatim>\<open>2-5\<close>;
  \<^verbatim>\<open>0,99\<close> gives 1 and 10.
\<close>

theorem parsePageSelection_pages:
  assumes "1 \<le> N"
  shows "distinct (fst (parsePageSelection input N))
    \<and> (\<forall>p \<in> set (fst (parsePageSelection input N)). 1 \<le> p \<and> p \<le> N)
    \<and> set (fst (parsePageSelection input N)) =
        (\<Union>tok \<in> set (map js_trim (split_on CHR '','' input)). token_pages N tok)
    \<and> parsePageSelection ''5-2'' 10 = ([2, 3, 4, 5], Some ''2-5'')
    \<and> set (fst (parsePageSelection ''0,99'' 10)) = {1, 10}"
proof -
  have d: "distinct (fst (parsePageSelection input N))"
    by (simp add: parsePageSelection_def Let_def distinct_foldl_parse_part)
  have b: "\<forall>p \<in> set (fst (parsePageSelection input N)). 1 \<le> p \<and> p \<le> N"
    unfolding set_parsePageSelection using token_pages_bounds [OF assms] by blast
  have e1: "parsePageSelection ''5-2'' 10 = ([2, 3, 4, 5], Some ''2-5'')"
    by code_simp
  have "parsePageSelection ''0,99'' 10 = ([1, 10], Some ''1, 10'')"
    by code_simp
  then have e2: "set (fst (parsePageSelection ''0,99'' 10)) = {1, 10}" by simp
  from d b set_parsePageSelection e1 e2 show ?thesis by blast
qed

theorem parsePageSelection_pages_witness:
  "parsePageSelection ''1-3, 5, 9-7, x, 12'' 10 = ([1, 2, 3, 5, 7, 8, 9, 10], Some ''1-3, 5, 7-9, 10'')
   \<and> set (fst (parsePageSelection ''1-3, 5, 9-7, x, 12'' 10)) \<subseteq> {1..10}"
proof -
  have h: "(1::nat) \<le> 10" by simp
  have r: "parsePageSelection ''1-3, 5, 9-7, x, 12'' 10
           = ([1, 2, 3, 5, 7, 8, 9, 10], Some ''1-3, 5, 7-9, 10'')"
    by code_simp
  from parsePageSelection_pages [OF h, of "''1-3, 5, 9-7, x, 12''"]
  have "\<forall>p \<in> set (fst (parsePageSelection ''1-3, 5, 9-7, x, 12'' 10)). 1 \<le> p \<and> p \<le> 10"
    by blast
  then have "set (fst (parsePageSelection ''1-3, 5, 9-7, x, 12'' 10)) \<subseteq> {1..10}"
    by auto
  with r show ?thesis by blast
qed

section \<open>Properties of the PDF normalizer\<close>

text \<open>
  The loop never sees the size of the page: both dimensions read as undefined, are
  replaced by 1, and the scale factors are the target extents themselves.
\<close>

lemma safe_dimension_size_property: "safe_dimension (size_property embeddedPage) = Fin 1"
  by (simp add: safe_dimension_def size_property_def to_num_def isNaN_def js_max_def)

lemma resize_page_ignores_size:
  "resize_page targetWidth targetHeight embeddedPage =
     resize_page targetWidth targetHeight otherPage"
  by (simp add: resize_page_def size_property_def)

text \<open>
  Claim C4. The claim has the source dimensions sanitized to at least 1 before the
  scale factors are computed, so that a page of size (0, 0) meets no division by zero.
  The loop sanitizes what it reads from \<^verbatim>\<open>embeddedPage.size\<close>, which is undefined
  for every page: the safe dimensions are 1 and the scale factors 612 and 792 for an A4
  page as for an empty one. The page is drawn over the whole target, but the division
  by the page's own extent is left to \<^verbatim>\<open>drawPage\<close>, unsanitized, and for a page
  of size (0, 0) it divides by zero.
\<close>

theorem resize_page_never_reads_the_size:
  "safe_dimension (size_property (Fin 595, Fin 842)) = Fin 1
   \<and> scale_factor (Fin 612) (size_property (Fin 595, Fin 842)) = Fin 612
   \<and> scale_factor (Fin 792) (size_property (Fin 595, Fin 842)) = Fin 792
   \<and> safe_dimension (size_property (Fin 0, Fin 0)) = Fin 1
   \<and> resize_page (Fin 612) (Fin 792) (Fin 0, Fin 0) =
       \<lparr>page_size = (Fin 612, Fin 792),
        drawn = \<lparr>draw_x = Fin 0, draw_y = Fin 0,
                 draw_width = Fin 612, draw_height = Fin 792\<rparr>\<rparr>
   \<and> drawPage_scale (Fin 0, Fin 0) (drawn (resize_page (Fin 612) (Fin 792) (Fin 0, Fin 0)))
       = (PosInf, PosInf)
   \<and> drawPage_scale (Fin 0, Fin 0) (drawn (resize_page (Fin 612) (Fin 1008) (Fin 0, Fin 0)))
       = (PosInf, PosInf)"
  by code_simp

section \<open>Properties of the rasterization adapter\<close>

lemma convert_no_output:
  assumes "run = Exec_done out err" "err = [] \<or> str_includes err ''Warning''"
    "listing = Inr files" "\<forall>f \<in> set files. \<not> is_output_file b f"
  shows "convertPdfToPngsWithGhostscript run listing outDir b =
           Inl ''Ghostscript conversion failed: Ghostscript finished, but no PNG files found. The PDF may be corrupted or missing content.''"
proof -
  have "filter (is_output_file b) files = []" using assms(4) by (simp add: filter_empty_conv)
  then show ?thesis
    using assms(1-3) by (auto simp: convertPdfToPngsWithGhostscript_def)
qed

lemma convert_success:
  assumes "convertPdfToPngsWithGhostscript run listing outDir b = Inr paths"
  shows "\<exists>out err files. run = Exec_done out err \<and> (err = [] \<or> str_includes err ''Warning'')
           \<and> listing = Inr files
           \<and> paths = map (path_join outDir) (filter (is_output_file b) files)
           \<and> (\<exists>f \<in> set files. is_output_file b f)"
  using assms
  by (auto simp: convertPdfToPngsWithGhostscript_def Let_def filter_empty_conv
           split: exec_result.splits if_splits sum.splits)

lemma upload_needs_both_conversions:
  assumes "upload env = Uploaded li lg n sz b"
  shows "\<exists>pl pg. convertPdfToPngsWithGhostscript (run_letter env) (listing_letter env)
                    ''cache/letter'' b = Inr pl
           \<and> convertPdfToPngsWithGhostscript (run_legal env) (listing_legal env)
                    ''cache/legal'' b = Inr pg"
  using assms
  by (auto simp: upload_def resizePDF_def Let_def split: sum.splits option.splits prod.splits)

text \<open>
  Claim C3. When the engine ends without a fatal error (the process succeeds and its
  error stream is empty or only carries a warning) and the output directory then holds
  no file with the basename prefix and the image extension, the adapter raises an error;
  it returns paths only when at least one such file exists, and then returns exactly
  those. An upload is answered with page images only if both adapter calls returned
  paths, so the error aborts the upload.
\<close>

theorem no_output_files_is_failure:
  "(run = Exec_done out err \<and> (err = [] \<or> str_includes err ''Warning'')
      \<and> listing = Inr files \<and> (\<forall>f \<in> set files. \<not> is_output_file b f)
    \<longrightarrow> convertPdfToPngsWithGhostscript run listing outDir b =
          Inl ''Ghostscript conversion failed: Ghostscript finished, but no PNG files found. The PDF may be corrupted or missing content.'')
   \<and> (\<forall>paths. convertPdfToPngsWithGhostscript run listing outDir b = Inr paths \<longrightarrow>
         (\<exists>out err files. run = Exec_done out err \<and> (err = [] \<or> str_includes err ''Warning'')
            \<and> listing = Inr files
            \<and> paths = map (path_join outDir) (filter (is_output_file b) files)
            \<and> (\<exists>f \<in> set files. is_output_file b f)))
   \<and> (\<forall>li lg n sz s. upload env = Uploaded li lg n sz s \<longrightarrow>
         (\<exists>pl pg. convertPdfToPngsWithGhostscript (run_letter env) (listing_letter env)
                    ''cache/letter'' s = Inr pl
            \<and> convertPdfToPngsWithGhostscript (run_legal env) (listing_legal env)
                    ''cache/legal'' s = Inr pg))"
  using convert_no_output [of run out err listing files b outDir]
    convert_success [of run listing outDir b] upload_needs_both_conversions [of env]
  by blast

theorem no_output_files_is_failure_witness:
  "convertPdfToPngsWithGhostscript (Exec_done [] []) (Inr [''other_1.png'', ''b_1.txt''])
     ''cache/letter'' ''b''
   = Inl ''Ghostscript conversion failed: Ghostscript finished, but no PNG files found. The PDF may be corrupted or missing content.''
   \<and> upload \<lparr>received = Inr (Some ''b.pdf''), source = Inr ((Fin 612, Fin 792), []),
             run_letter = Exec_done [] [], listing_letter = Inr [''b_1.png''],
             run_legal = Exec_done [] [], listing_legal = Inr []\<rparr>
     = Upload_failed ''Ghostscript conversion failed: Ghostscript finished, but no PNG files found. The PDF may be corrupted or missing content.''"
proof -
  have n: "\<forall>f \<in> set [''other_1.png'', ''b_1.txt'']. \<not> is_output_file ''b'' f"
    by code_simp
  from no_output_files_is_failure [of "Exec_done [] []" "[]" "[]"
      "Inr [''other_1.png'', ''b_1.txt'']" "[''other_1.png'', ''b_1.txt'']" "''b''" "''cache/letter''"] n
  have a: "convertPdfToPngsWithGhostscript (Exec_done [] []) (Inr [''other_1.png'', ''b_1.txt''])
     ''cache/letter'' ''b''
   = Inl ''Ghostscript conversion failed: Ghostscript finished, but no PNG files found. The PDF may be corrupted or missing content.''"
    by blast
  have b: "upload \<lparr>received = Inr (Some ''b.pdf''), source = Inr ((Fin 612, Fin 792), []),
             run_letter = Exec_done [] [], listing_letter = Inr [''b_1.png''],
             run_legal = Exec_done [] [], listing_legal = Inr []\<rparr>
     = Upload_failed ''Ghostscript conversion failed: Ghostscript finished, but no PNG files found. The PDF may be corrupted or missing content.''"
    by code_simp
  from a b show ?thesis by blast
qed

text \<open>The adapter of the earlier revision returns an empty list in that situation.\<close>

lemma convertPdfToPngsWithPdf2Pic_empty:
  "convertPdfToPngsWithPdf2Pic (Inr []) outDir = Inr []"
  by (simp add: convertPdfToPngsWithPdf2Pic_def)

section \<open>Properties of the cleanup endpoint\<close>

lemma delete_last_Deleted:
  assumes "valid_baseName b" "delete_last unlink_ok b st = (Deleted, st')"
  shows "\<exists>lf gf. letterCache st = Inr lf \<and> legalCache st = Inr gf
    \<and> letterCache st' = Inr (unlink_all unlink_ok LetterCache (cleanup_match b) lf)
    \<and> legalCache st' = Inr (unlink_all unlink_ok LegalCache (cleanup_match b) gf)
    \<and> uploadsDir st' = unlink_all unlink_ok Uploads
                          (\<lambda>f. f = b @ ''_letter.pdf'' \<or> f = b @ ''_legal.pdf'') (uploadsDir st)"
proof -
  from assms(1) have s: "sanitize_baseName b = b" "b \<noteq> []" by (auto simp: valid_baseName_def)
  show ?thesis
    using assms(2) s
    by (auto simp: delete_last_def delete_last_with_def Let_def split: sum.splits)
qed

lemma delete_last_succeeds:
  assumes "valid_baseName b" "letterCache st = Inr lf" "legalCache st = Inr gf"
  shows "fst (delete_last unlink_ok b st) = Deleted"
proof -
  from assms(1) have s: "sanitize_baseName b = b" "b \<noteq> []" by (auto simp: valid_baseName_def)
  show ?thesis
    using assms(2,3) s by (simp add: delete_last_def delete_last_with_def Let_def)
qed

lemma lookup_after_unlink:
  assumes "\<forall>f \<in> set files. cleanup_match b f \<longrightarrow> unlink_ok d f"
  shows "lookup (Inr (unlink_all unlink_ok d (cleanup_match b) files)) b pageNumbers = Some []"
proof -
  have "filter (\<lambda>f. startsWith f (b @ [CHR ''_'']))
          (unlink_all unlink_ok d (cleanup_match b) files) = []"
    using assms by (auto simp: unlink_all_def filter_empty_conv cleanup_match_def)
  then show ?thesis by (simp add: lookup_def matched_files_def js_sort_def)
qed

text \<open>
  Claim C5, as amended. For a valid basename, when the cleanup endpoint answers with
  success, each cache partition holds what it held before minus the files that start
  with the basename followed by \<^verbatim>\<open>_\<close> or \<^verbatim>\<open>-\<close> and whose removal succeeded, and the
  uploads directory has lost the two normalized PDFs of the basename where their removal
  succeeded; a failed removal is ignored and the file stays. The endpoint answers with
  success whenever both partitions can be listed. If every removal succeeds, a lookup
  for the basename afterwards is empty in both partitions, for any requested pages, and
  the two PDFs are gone.
\<close>

theorem invalidate_then_lookup_empty:
  assumes "valid_baseName b" "delete_last unlink_ok b st = (Deleted, st')"
  shows "(\<exists>lf gf. letterCache st = Inr lf \<and> legalCache st = Inr gf
            \<and> letterCache st' = Inr (filter (\<lambda>f. \<not> (cleanup_match b f \<and> unlink_ok LetterCache f)) lf)
            \<and> legalCache st' = Inr (filter (\<lambda>f. \<not> (cleanup_match b f \<and> unlink_ok LegalCache f)) gf)
            \<and> uploadsDir st' =
                filter (\<lambda>f. \<not> ((f = b @ ''_letter.pdf'' \<or> f = b @ ''_legal.pdf'')
                                \<and> unlink_ok Uploads f)) (uploadsDir st))
    \<and> ((\<forall>d f. unlink_ok d f) \<longrightarrow>
          lookup (letterCache st') b pageNumbers = Some []
          \<and> lookup (legalCache st') b pageNumbers = Some []
          \<and> b @ ''_letter.pdf'' \<notin> set (uploadsDir st')
          \<and> b @ ''_legal.pdf'' \<notin> set (uploadsDir st'))
    \<and> (\<forall>u lf gf. letterCache st = Inr lf \<and> legalCache st = Inr gf
          \<longrightarrow> fst (delete_last u b st) = Deleted)"
proof -
  from delete_last_Deleted [OF assms] obtain lf gf where
    f: "letterCache st = Inr lf" "legalCache st = Inr gf"
      "letterCache st' = Inr (unlink_all unlink_ok LetterCache (cleanup_match b) lf)"
      "legalCache st' = Inr (unlink_all unlink_ok LegalCache (cleanup_match b) gf)"
      "uploadsDir st' = unlink_all unlink_ok Uploads
                          (\<lambda>f. f = b @ ''_letter.pdf'' \<or> f = b @ ''_legal.pdf'') (uploadsDir st)"
    by blast
  have a: "\<exists>lf gf. letterCache st = Inr lf \<and> legalCache st = Inr gf
            \<and> letterCache st' = Inr (filter (\<lambda>f. \<not> (cleanup_match b f \<and> unlink_ok LetterCache f)) lf)
            \<and> legalCache st' = Inr (filter (\<lambda>f. \<not> (cleanup_match b f \<and> unlink_ok LegalCache f)) gf)
            \<and> uploadsDir st' =
                filter (\<lambda>f. \<not> ((f = b @ ''_letter.pdf'' \<or> f = b @ ''_legal.pdf'')
                                \<and> unlink_ok Uploads f)) (uploadsDir st)"
    using f by (simp add: unlink_all_def)
  have c: "lookup (letterCache st') b pageNumbers = Some []
          \<and> lookup (legalCache st') b pageNumbers = Some []
          \<and> b @ ''_letter.pdf'' \<notin> set (uploadsDir st')
          \<and> b @ ''_legal.pdf'' \<notin> set (uploadsDir st')"
    if all: "\<forall>d f. unlink_ok d f"
  proof -
    have "lookup (letterCache st') b pageNumbers = Some []"
      unfolding f(3) by (rule lookup_after_unlink) (use all in blast)
    moreover have "lookup (legalCache st') b pageNumbers = Some []"
      unfolding f(4) by (rule lookup_after_unlink) (use all in blast)
    moreover have "b @ ''_letter.pdf'' \<notin> set (uploadsDir st')"
      "b @ ''_legal.pdf'' \<notin> set (uploadsDir st')"
      using all by (simp_all add: f(5) unlink_all_def)
    ultimately show ?thesis by blast
  qed
  have s: "fst (delete_last u b st) = Deleted"
    if "letterCache st = Inr lf \<and> legalCache st = Inr gf" for u lf gf
    using delete_last_succeeds [OF assms(1)] that by blast
  from a c s show ?thesis by blast
qed

theorem invalidate_then_lookup_empty_witness:
  "delete_last unlink_succeeds ''1700-doc''
     \<lparr>letterCache = Inr [''1700-doc_1.png'', ''1699-old_1.png'', ''1700-doc-2.png''],
      legalCache = Inr [''1700-doc_1.png''],
      uploadsDir = [''1700-doc_letter.pdf'', ''1700-doc_legal.pdf'', ''x.pdf'']\<rparr>
   = (Deleted, \<lparr>letterCache = Inr [''1699-old_1.png''], legalCache = Inr [],
               uploadsDir = [''x.pdf'']\<rparr>)
   \<and> lookup (Inr [''1699-old_1.png'']) ''1700-doc'' [Fin 1, Fin 2] = Some []
   \<and> lookup (Inr []) ''1700-doc'' [Fin 1, Fin 2] = Some []"
proof -
  let ?st = "\<lparr>letterCache = Inr [''1700-doc_1.png'', ''1699-old_1.png'', ''1700-doc-2.png''],
      legalCache = Inr [''1700-doc_1.png''],
      uploadsDir = [''1700-doc_letter.pdf'', ''1700-doc_legal.pdf'', ''x.pdf'']\<rparr>"
  let ?st' = "\<lparr>letterCache = Inr [''1699-old_1.png''], legalCache = Inr [],
               uploadsDir = [''x.pdf'']\<rparr>"
  have v: "valid_baseName ''1700-doc''" by code_simp
  have run: "delete_last unlink_succeeds ''1700-doc'' ?st = (Deleted, ?st')" by code_simp
  have all: "\<forall>d f. unlink_succeeds d f" by (simp add: unlink_succeeds_def)
  from invalidate_then_lookup_empty [OF v run, of "[Fin 1, Fin 2]"] all
  have "lookup (letterCache ?st') ''1700-doc'' [Fin 1, Fin 2] = Some []
        \<and> lookup (legalCache ?st') ''1700-doc'' [Fin 1, Fin 2] = Some []"
    by blast
  with run show ?thesis by simp
qed

text \<open>
  The claim as stated fails when a removal fails: the error is swallowed, the endpoint
  still answers with success, the file is still there and the lookup finds it.
\<close>

theorem failed_unlink_leaves_cached_page:
  "valid_baseName ''b''
   \<and> delete_last unlink_fails ''b''
       \<lparr>letterCache = Inr [''b_1.png''], legalCache = Inr [], uploadsDir = []\<rparr>
     = (Deleted, \<lparr>letterCache = Inr [''b_1.png''], legalCache = Inr [], uploadsDir = []\<rparr>)
   \<and> lookup (Inr [''b_1.png'']) ''b'' [Fin 1] = Some [''b_1.png'']"
  by code_simp

text \<open>The handler of the earlier revision leaves the files named with \<^verbatim>\<open>_\<close> in place.\<close>

lemma delete_last_pdf2pic_revision_keeps_underscore_files:
  "delete_last_pdf2pic_revision unlink_succeeds ''b''
       \<lparr>letterCache = Inr [''b_1.png'', ''b-1.png''], legalCache = Inr [], uploadsDir = []\<rparr>
     = (Deleted, \<lparr>letterCache = Inr [''b_1.png''], legalCache = Inr [], uploadsDir = []\<rparr>)"
  by code_simp

end
